theory Spec2Isabelle
  imports Complex_Main "HOL-Library.Log_Nat"
begin


section \<open>Python values and exceptions\<close>

text \<open>
  The integration works on decoded JSON: the responses of the metering API and the
  dictionaries that \<^verbatim>\<open>translate_dict\<close> builds from them. A decoded JSON value is one
  of Python's \<^verbatim>\<open>None\<close>, \<^verbatim>\<open>bool\<close>, \<^verbatim>\<open>int\<close>, \<^verbatim>\<open>float\<close>, \<^verbatim>\<open>str\<close>, \<^verbatim>\<open>list\<close> and \<^verbatim>\<open>dict\<close>
  (with \<^verbatim>\<open>str\<close> keys). A finite float is carried as the rational number it denotes
  (infinities and NaN are left out). A dictionary is an association list in insertion
  order; lookups take the first entry of a key. Characters are the code points 0..255.
\<close>

datatype pyval =
    PNone
  | PBool bool
  | PInt int
  | PFloat rat
  | PStr string
  | PList "pyval list"
  | PDict "(string \<times> pyval) list"

type_synonym pydict = "(string \<times> pyval) list"

text \<open>The exceptions the modelled code can raise or receive from its collaborators.\<close>

datatype exn =
    TypeError
  | KeyError
  | IndexError
  | ValueError
  | AttributeError
  | OverflowError
  | RuntimeError
  | OtherException

text \<open>Truthiness, as \<^verbatim>\<open>if x\<close> and \<^verbatim>\<open>not x\<close> test it.\<close>

fun py_truthy :: "pyval \<Rightarrow> bool" where
  "py_truthy PNone = False"
| "py_truthy (PBool b) = b"
| "py_truthy (PInt i) = (i \<noteq> 0)"
| "py_truthy (PFloat x) = (x \<noteq> 0)"
| "py_truthy (PStr s) = (s \<noteq> [])"
| "py_truthy (PList xs) = (xs \<noteq> [])"
| "py_truthy (PDict kvs) = (kvs \<noteq> [])"

text \<open>\<^verbatim>\<open>x == 0\<close>: numbers compare by value and \<^verbatim>\<open>False == 0\<close> holds.\<close>

fun py_eq_zero :: "pyval \<Rightarrow> bool" where
  "py_eq_zero (PBool b) = (\<not> b)"
| "py_eq_zero (PInt i) = (i = 0)"
| "py_eq_zero (PFloat x) = (x = 0)"
| "py_eq_zero _ = False"

text \<open>
  \<^verbatim>\<open>xs[i]\<close> for an integer \<open>i\<close>: positions \<open>0\<close> to \<open>len - 1\<close> from the front, \<open>-1\<close>
  down to \<open>-len\<close> from the back, and \<^verbatim>\<open>IndexError\<close> outside.
\<close>

definition seq_index :: "'a list \<Rightarrow> int \<Rightarrow> exn + 'a" where
  "seq_index xs i =
     (if 0 \<le> i \<and> i < int (length xs) then Inr (xs ! nat i)
      else if i < 0 \<and> - int (length xs) \<le> i then Inr (xs ! nat (int (length xs) + i))
      else Inl IndexError)"

text \<open>
  The subscript \<^verbatim>\<open>data[key]\<close>. A list takes an \<^verbatim>\<open>int\<close> (a \<^verbatim>\<open>bool\<close> is one), a
  dictionary any hashable key (its keys are strings, so any other key is missing), a
  string an \<^verbatim>\<open>int\<close>; everything else is a \<^verbatim>\<open>TypeError\<close>.
\<close>

fun py_getitem :: "pyval \<Rightarrow> pyval \<Rightarrow> exn + pyval" where
  "py_getitem (PList xs) (PInt i) = seq_index xs i"
| "py_getitem (PList xs) (PBool b) = seq_index xs (if b then 1 else 0)"
| "py_getitem (PList xs) _ = Inl TypeError"
| "py_getitem (PDict kvs) (PStr k) =
     (case map_of kvs k of None \<Rightarrow> Inl KeyError | Some v \<Rightarrow> Inr v)"
| "py_getitem (PDict kvs) (PList _) = Inl TypeError"
| "py_getitem (PDict kvs) (PDict _) = Inl TypeError"
| "py_getitem (PDict kvs) _ = Inl KeyError"
| "py_getitem (PStr s) (PInt i) =
     (case seq_index s i of Inl e \<Rightarrow> Inl e | Inr c \<Rightarrow> Inr (PStr [c]))"
| "py_getitem (PStr s) (PBool b) =
     (case seq_index s (if b then 1 else 0) of Inl e \<Rightarrow> Inl e | Inr c \<Rightarrow> Inr (PStr [c]))"
| "py_getitem (PStr s) _ = Inl TypeError"
| "py_getitem _ _ = Inl TypeError"

text \<open>\<^verbatim>\<open>needle in s\<close> on strings is the substring test.\<close>

fun is_substr :: "string \<Rightarrow> string \<Rightarrow> bool" where
  "is_substr needle [] = (needle = [])"
| "is_substr needle (c # cs) =
     (take (length needle) (c # cs) = needle \<or> is_substr needle cs)"

text \<open>
  \<^verbatim>\<open>"<key>" in data\<close> for a string on the left: a key of a dictionary, an element of a
  list, a substring of a string; other values are not iterable.
\<close>

fun py_contains_str :: "string \<Rightarrow> pyval \<Rightarrow> exn + bool" where
  "py_contains_str k (PDict kvs) = Inr (k \<in> fst ` set kvs)"
| "py_contains_str k (PList xs) = Inr (PStr k \<in> set xs)"
| "py_contains_str k (PStr s) = Inr (is_substr k s)"
| "py_contains_str k _ = Inl TypeError"

text \<open>\<^verbatim>\<open>len(data)\<close>.\<close>

fun py_len :: "pyval \<Rightarrow> exn + nat" where
  "py_len (PDict kvs) = Inr (length kvs)"
| "py_len (PList xs) = Inr (length xs)"
| "py_len (PStr s) = Inr (length s)"
| "py_len _ = Inl TypeError"

text \<open>
  \<^verbatim>\<open>for v in data\<close>: the elements of a list, the keys of a dictionary, the characters
  of a string.
\<close>

fun py_iter :: "pyval \<Rightarrow> exn + pyval list" where
  "py_iter (PList xs) = Inr xs"
| "py_iter (PDict kvs) = Inr (map (\<lambda>kv. PStr (fst kv)) kvs)"
| "py_iter (PStr s) = Inr (map (\<lambda>c. PStr [c]) s)"
| "py_iter _ = Inl TypeError"

text \<open>\<^verbatim>\<open>d[k] = v\<close> on a dictionary: replace the entry of \<open>k\<close> or append a new one.\<close>

fun dict_set :: "pydict \<Rightarrow> string \<Rightarrow> pyval \<Rightarrow> pydict" where
  "dict_set [] k v = [(k, v)]"
| "dict_set ((k', v') # kvs) k v =
     (if k' = k then (k, v) # kvs else (k', v') # dict_set kvs k v)"

text \<open>\<^verbatim>\<open>d.get(k)\<close>: the value, or \<^verbatim>\<open>None\<close> for a missing key.\<close>

definition dict_get :: "pydict \<Rightarrow> string \<Rightarrow> pyval" where
  "dict_get d k = (case map_of d k of None \<Rightarrow> PNone | Some v \<Rightarrow> v)"


section \<open>utils.py\<close>

text \<open>
  \<^verbatim>\<open>str.isdigit\<close>: every character is a digit and there is at least one. Among the code
  points below 256 the digits are \<^verbatim>\<open>0\<close>..\<^verbatim>\<open>9\<close> and the superscripts U+00B2, U+00B3 and
  U+00B9; \<^verbatim>\<open>int\<close> accepts only the former and raises \<^verbatim>\<open>ValueError\<close> on the latter.
  (Interpreters that limit the length of a digit string raise the same error beyond the
  limit; such an index is beyond any list, so \<^verbatim>\<open>dict_path\<close> returns \<^verbatim>\<open>None\<close> either way.)
\<close>

definition ascii_digit :: "char \<Rightarrow> bool" where
  "ascii_digit c = (48 \<le> (of_char c :: nat) \<and> (of_char c :: nat) \<le> 57)"

definition py_isdigit_char :: "char \<Rightarrow> bool" where
  "py_isdigit_char c = (ascii_digit c \<or> c = CHR 0xB2 \<or> c = CHR 0xB3 \<or> c = CHR 0xB9)"

definition py_isdigit :: "string \<Rightarrow> bool" where
  "py_isdigit s = (s \<noteq> [] \<and> list_all py_isdigit_char s)"

definition digit_val :: "char \<Rightarrow> int" where
  "digit_val c = int (of_char c :: nat) - 48"

definition py_int_of_str :: "string \<Rightarrow> exn + int" where
  "py_int_of_str s =
     (if s \<noteq> [] \<and> list_all ascii_digit s
      then Inr (foldl (\<lambda>acc c. 10 * acc + digit_val c) 0 s)
      else Inl ValueError)"

text \<open>\<^verbatim>\<open>strint\<close>: a string of digits becomes an \<^verbatim>\<open>int\<close>, any other string stays.\<close>

definition strint :: "string \<Rightarrow> exn + pyval" where
  "strint s =
     (if py_isdigit s
      then (case py_int_of_str s of Inl e \<Rightarrow> Inl e | Inr n \<Rightarrow> Inr (PInt n))
      else Inr (PStr s))"

text \<open>
  \<^verbatim>\<open>is_valid_access(data, accessor)\<close>: an \<^verbatim>\<open>int\<close> accessor on a list is valid below the
  length, a \<^verbatim>\<open>str\<close> accessor on a dictionary when it is a key, nothing else is.
\<close>

fun is_valid_access :: "pyval \<Rightarrow> pyval \<Rightarrow> bool" where
  "is_valid_access (PList xs) (PInt i) = (i < int (length xs))"
| "is_valid_access (PList xs) (PBool b) = ((if b then 1 else 0) < int (length xs))"
| "is_valid_access (PDict kvs) (PStr k) = (k \<in> fst ` set kvs)"
| "is_valid_access _ _ = False"

text \<open>\<^verbatim>\<open>path.split(".")\<close>: the pieces between the dots, one more than there are dots.\<close>

fun split_dot :: "string \<Rightarrow> string list" where
  "split_dot [] = [[]]"
| "split_dot (c # cs) =
     (if c = CHR ''.'' then [] # split_dot cs
      else (case split_dot cs of [] \<Rightarrow> [[c]] | w # ws \<Rightarrow> (c # w) # ws))"

text \<open>The list comprehension \<^verbatim>\<open>[strint(s) for s in ...]\<close> stops at the first exception.\<close>

fun strint_all :: "string list \<Rightarrow> exn + pyval list" where
  "strint_all [] = Inr []"
| "strint_all (s # ss) =
     (case strint s of
        Inl e \<Rightarrow> Inl e
      | Inr a \<Rightarrow> (case strint_all ss of Inl e \<Rightarrow> Inl e | Inr as \<Rightarrow> Inr (a # as)))"

text \<open>
  The function folded by \<^verbatim>\<open>reduce\<close>: \<^verbatim>\<open>acc[i] if is_valid_access(acc, i) else None\<close>.
  The subscript is the unguarded one and can raise.
\<close>

definition access_step :: "pyval \<Rightarrow> pyval \<Rightarrow> exn + pyval" where
  "access_step acc i = (if is_valid_access acc i then py_getitem acc i else Inr PNone)"

fun reduce_access :: "pyval list \<Rightarrow> pyval \<Rightarrow> exn + pyval" where
  "reduce_access [] acc = Inr acc"
| "reduce_access (i # is) acc =
     (case access_step acc i of Inl e \<Rightarrow> Inl e | Inr acc' \<Rightarrow> reduce_access is acc')"

text \<open>The body of the \<^verbatim>\<open>try\<close> block of \<^verbatim>\<open>dict_path\<close>.\<close>

definition dict_path_try :: "string \<Rightarrow> pyval \<Rightarrow> exn + pyval" where
  "dict_path_try path dictionary =
     (case strint_all (split_dot path) of
        Inl e \<Rightarrow> Inl e
      | Inr accessors \<Rightarrow> reduce_access accessors dictionary)"

text \<open>
  \<^verbatim>\<open>dict_path\<close>: \<^verbatim>\<open>except KeyError\<close> and \<^verbatim>\<open>except Exception\<close> log and fall through to
  \<^verbatim>\<open>return None\<close>. Every exception of \<^typ>\<open>exn\<close> is an \<^verbatim>\<open>Exception\<close>.
\<close>

definition dict_path :: "string \<Rightarrow> pyval \<Rightarrow> exn + pyval" where
  "dict_path path dictionary =
     (case dict_path_try path dictionary of Inl e \<Rightarrow> Inr PNone | Inr v \<Rightarrow> Inr v)"

text \<open>
  \<^verbatim>\<open>translate_dict\<close>: the loop over \<^verbatim>\<open>attrs_list\<close>, with \<^verbatim>\<open>result\<close> as the accumulator.
\<close>

fun translate_loop :: "pyval \<Rightarrow> (string \<times> string) list \<Rightarrow> pydict \<Rightarrow> exn + pydict" where
  "translate_loop dictionary [] result = Inr result"
| "translate_loop dictionary ((src, dest) # attrs) result =
     (case dict_path src dictionary of
        Inl e \<Rightarrow> Inl e
      | Inr v \<Rightarrow>
          translate_loop dictionary attrs
            (if v \<noteq> PNone then dict_set result dest v else result))"

definition translate_dict :: "pyval \<Rightarrow> (string \<times> string) list \<Rightarrow> exn + pydict" where
  "translate_dict dictionary attrs_list = translate_loop dictionary attrs_list []"

text \<open>
  What a path addresses: each accessor in turn selects an element of a list or an entry of
  a dictionary, and a selection that does not exist gives \<^verbatim>\<open>None\<close>.
\<close>

fun select :: "pyval \<Rightarrow> pyval \<Rightarrow> pyval" where
  "select (PList xs) (PInt i) = (if 0 \<le> i \<and> i < int (length xs) then xs ! nat i else PNone)"
| "select (PDict kvs) (PStr k) = (case map_of kvs k of None \<Rightarrow> PNone | Some v \<Rightarrow> v)"
| "select _ _ = PNone"

definition addressed :: "pyval list \<Rightarrow> pyval \<Rightarrow> pyval" where
  "addressed accessors dictionary = foldl select dictionary accessors"



section \<open>Python numbers: \<^verbatim>\<open>float\<close> division and \<^verbatim>\<open>Decimal\<close> addition\<close>

text \<open>
  \<^verbatim>\<open>Decimal(v['value'] / 1000.0)\<close> divides in binary floating point and converts the
  quotient to a \<^verbatim>\<open>Decimal\<close> without rounding; \<^verbatim>\<open>sum_acc += usage\<close> adds two decimals and
  rounds the result to the 28 significant digits of the default context, half to even.
  Both are functions on rational numbers.
\<close>

definition round_half_even :: "rat \<Rightarrow> int" where
  "round_half_even x =
     (let f = \<lfloor>x\<rfloor>; d = x - of_int f
      in if d < 1 / 2 then f else if 1 / 2 < d then f + 1 else if even f then f else f + 1)"

text \<open>The number of times \<open>n\<close> can be divided by \<open>b\<close> before it falls below \<open>b\<close>.\<close>

function ilog_int :: "int \<Rightarrow> int \<Rightarrow> int" where
  "ilog_int b n = (if b < 2 \<or> n < b then 0 else ilog_int b (n div b) + 1)"
  by pat_completeness auto
termination
proof (relation "measure (\<lambda>(b, n). nat n)")
  show "wf (measure (\<lambda>(b :: int, n :: int). nat n))"
    by simp
next
  fix b n :: int
  assume "\<not> (b < 2 \<or> n < b)"
  then have "2 \<le> b" and "0 < n"
    by simp_all
  then have "n div b < n"
    by (simp add: int_div_less_self)
  with \<open>0 < n\<close> show "((b, n div b), (b, n)) \<in> measure (\<lambda>(b, n). nat n)"
    by simp
qed

text \<open>The integer \<open>k\<close> with \<open>b ^ k \<le> x < b ^ (k + 1)\<close>, for a positive \<open>x\<close>.\<close>

definition ilog :: "int \<Rightarrow> rat \<Rightarrow> int" where
  "ilog b x =
     (let (p, q) = quotient_of x;
          e = ilog_int b p - ilog_int b q
      in if of_int b powi e \<le> x then e else e - 1)"

text \<open>
  Rounding to the nearest IEEE 754 binary64 number, ties to even: 53 significant bits,
  and the spacing \<open>2 ^ -1074\<close> in the subnormal range.
\<close>

definition fl_round :: "rat \<Rightarrow> rat" where
  "fl_round x =
     (if x = 0 then 0
      else let a = \<bar>x\<bar>; e = max (ilog 2 a - 52) (- 1074)
           in sgn x * of_int (round_half_even (a / 2 powi e)) * 2 powi e)"

text \<open>\<^verbatim>\<open>float(i)\<close> for an \<^verbatim>\<open>int\<close>: correctly rounded, \<^verbatim>\<open>OverflowError\<close> beyond the range.\<close>

definition py_float_of_int :: "int \<Rightarrow> exn + rat" where
  "py_float_of_int i =
     (let r = fl_round (of_int i) in if 2 ^ 1024 \<le> \<bar>r\<bar> then Inl OverflowError else Inr r)"

text \<open>
  \<^verbatim>\<open>value / 1000.0\<close>: an \<^verbatim>\<open>int\<close> (or \<^verbatim>\<open>bool\<close>) is converted to \<^verbatim>\<open>float\<close> first, then
  the division rounds once more; other operands are a \<^verbatim>\<open>TypeError\<close>.
\<close>

fun py_div_1000 :: "pyval \<Rightarrow> exn + rat" where
  "py_div_1000 (PInt i) =
     (case py_float_of_int i of Inl e \<Rightarrow> Inl e | Inr r \<Rightarrow> Inr (fl_round (r / 1000)))"
| "py_div_1000 (PBool b) =
     (case py_float_of_int (if b then 1 else 0) of
        Inl e \<Rightarrow> Inl e
      | Inr r \<Rightarrow> Inr (fl_round (r / 1000)))"
| "py_div_1000 (PFloat x) = Inr (fl_round (x / 1000))"
| "py_div_1000 _ = Inl TypeError"

text \<open>Rounding to 28 significant decimal digits, ties to even.\<close>

definition dec_round :: "rat \<Rightarrow> rat" where
  "dec_round x =
     (if x = 0 then 0
      else let a = \<bar>x\<bar>; e = ilog 10 a - 27
           in sgn x * of_int (round_half_even (a / 10 powi e)) * 10 powi e)"

definition dec_add :: "rat \<Rightarrow> rat \<Rightarrow> rat" where
  "dec_add a b = dec_round (a + b)"


section \<open>Points in time\<close>

text \<open>
  A \<^verbatim>\<open>datetime\<close> is its wall-clock reading, in microseconds since 1970-01-01T00:00:00 of
  its own calendar, and the UTC offset of its \<^verbatim>\<open>tzinfo\<close> in minutes (\<open>None\<close> for a naive
  value): the offsets of ISO 8601 strings and of UTC itself are whole minutes. The bounds
  of the type (years 1 to 9999) are left out.
\<close>

record datetime =
  wall :: int
  tzoff :: "int option"

definition usec_per_hour :: int where
  "usec_per_hour = 3600000000"

text \<open>The instant of an aware value on the UTC time line.\<close>

definition dt_instant :: "datetime \<Rightarrow> int" where
  "dt_instant d = wall d - (case tzoff d of None \<Rightarrow> 0 | Some m \<Rightarrow> m * 60000000)"

text \<open>\<^verbatim>\<open>d.minute\<close>.\<close>

definition dt_minute :: "datetime \<Rightarrow> int" where
  "dt_minute d = (wall d div 60000000) mod 60"

text \<open>\<^verbatim>\<open>d.second\<close> and \<^verbatim>\<open>d.microsecond\<close>.\<close>

definition dt_second :: "datetime \<Rightarrow> int" where
  "dt_second d = (wall d div 1000000) mod 60"

definition dt_microsecond :: "datetime \<Rightarrow> int" where
  "dt_microsecond d = wall d mod 1000000"

text \<open>\<^verbatim>\<open>d.replace(minute=0, second=0, microsecond=0)\<close>.\<close>

definition dt_replace_minute0 :: "datetime \<Rightarrow> datetime" where
  "dt_replace_minute0 d = d\<lparr>wall := wall d - wall d mod usec_per_hour\<rparr>"

text \<open>\<^verbatim>\<open>d.replace(hour=0, minute=0, second=0, microsecond=0)\<close>.\<close>

definition dt_replace_hour0 :: "datetime \<Rightarrow> datetime" where
  "dt_replace_hour0 d = d\<lparr>wall := wall d - wall d mod (24 * usec_per_hour)\<rparr>"

text \<open>\<^verbatim>\<open>d.replace(microsecond=0)\<close>.\<close>

definition dt_replace_microsecond0 :: "datetime \<Rightarrow> datetime" where
  "dt_replace_microsecond0 d = d\<lparr>wall := wall d - wall d mod 1000000\<rparr>"

text \<open>\<^verbatim>\<open>d + timedelta(hours=h)\<close>.\<close>

definition dt_add_hours :: "datetime \<Rightarrow> int \<Rightarrow> datetime" where
  "dt_add_hours d h = d\<lparr>wall := wall d + h * usec_per_hour\<rparr>"

text \<open>
  \<^verbatim>\<open>a < b\<close> and \<^verbatim>\<open>a - b\<close> (in microseconds): two aware values compare on the UTC time
  line, two naive ones by their wall clocks, and mixing them is a \<^verbatim>\<open>TypeError\<close>.
\<close>

definition dt_less :: "datetime \<Rightarrow> datetime \<Rightarrow> exn + bool" where
  "dt_less a b =
     (if (tzoff a = None) \<noteq> (tzoff b = None) then Inl TypeError
      else Inr (dt_instant a < dt_instant b))"

definition dt_diff :: "datetime \<Rightarrow> datetime \<Rightarrow> exn + int" where
  "dt_diff a b =
     (if (tzoff a = None) \<noteq> (tzoff b = None) then Inl TypeError
      else Inr (dt_instant a - dt_instant b))"

text \<open>\<^verbatim>\<open>datetime.now(timezone.utc)\<close> when the clock reads \<open>t\<close> microseconds after the epoch.\<close>

definition utc_datetime :: "int \<Rightarrow> datetime" where
  "utc_datetime t = \<lparr>wall = t, tzoff = Some 0\<rparr>"

text \<open>
  \<^verbatim>\<open>today()\<close> of utils.py: the start of the local day, naive. Its argument here is the
  reading of the local clock, \<^verbatim>\<open>datetime.now()\<close>.
\<close>

definition today :: "int \<Rightarrow> datetime" where
  "today local_now = dt_replace_hour0 \<lparr>wall = local_now, tzoff = None\<rparr>"

text \<open>
  \<^verbatim>\<open>today\<close> is declared without parameters, \<^verbatim>\<open>def today()\<close>: a call that passes
  positional arguments raises \<^verbatim>\<open>TypeError\<close> before the body runs.
\<close>

definition call_today :: "nat \<Rightarrow> int \<Rightarrow> exn + datetime" where
  "call_today nargs local_now = (if nargs \<noteq> 0 then Inl TypeError else Inr (today local_now))"


section \<open>sensor.py\<close>

text \<open>
  What lies outside the repository's two source files is a parameter of the model: the
  collaborators of the sensor (the API client of api.py, the attribute tables of const.py,
  the two conversions of Home Assistant's \<^verbatim>\<open>dt_util\<close>) and the readings of the clock.
  \<^verbatim>\<open>parse_datetime\<close> returns \<^verbatim>\<open>None\<close> for a string that is no date.
  The clock is read at three places; each has its own field, in microseconds.
\<close>

record env =
  zaehlpunkt :: string
  attrs_zaehlpunkte_call :: "(string \<times> string) list"
  attrs_verbrauch_call :: "(string \<times> string) list"
  parse_datetime :: "string \<Rightarrow> datetime option"
  utc_from_timestamp :: "rat \<Rightarrow> datetime"
  api_login :: "exn option"
  api_zaehlpunkte :: "exn + pyval"
  api_verbrauch :: "datetime \<Rightarrow> exn + pyval"
  now_update :: int
  now_import :: int
  now_local :: int

text \<open>\<^verbatim>\<open>StatisticData(start=ts, sum=sum_, state=usage)\<close>.\<close>

record stat =
  st_start :: datetime
  st_sum :: rat
  st_state :: rat

text \<open>The calls made to the API client, in order.\<close>

datatype api_call = CallLogin | CallZaehlpunkte | CallVerbrauch datetime

subsection \<open>\<^verbatim>\<open>get_zaehlpunkt\<close> and \<^verbatim>\<open>get_consumption\<close>\<close>

text \<open>
  The comprehension \<^verbatim>\<open>[z for z in ... if z["zaehlpunktnummer"] == self.zaehlpunkt]\<close>.
\<close>

fun filter_zaehlpunkt :: "string \<Rightarrow> pyval list \<Rightarrow> exn + pyval list" where
  "filter_zaehlpunkt nr [] = Inr []"
| "filter_zaehlpunkt nr (z # zs) =
     (case py_getitem z (PStr ''zaehlpunktnummer'') of
        Inl e \<Rightarrow> Inl e
      | Inr n \<Rightarrow>
          (case filter_zaehlpunkt nr zs of
             Inl e \<Rightarrow> Inl e
           | Inr r \<Rightarrow> Inr (if n = PStr nr then z # r else r)))"

definition get_zaehlpunkt :: "env \<Rightarrow> exn + pydict" where
  "get_zaehlpunkt env =
     (case api_zaehlpunkte env of
        Inl e \<Rightarrow> Inl e
      | Inr zps \<Rightarrow>
     (case py_contains_str ''Exception'' zps of
        Inl e \<Rightarrow> Inl e
      | Inr True \<Rightarrow> Inl RuntimeError
      | Inr False \<Rightarrow>
     (case py_len zps of
        Inl e \<Rightarrow> Inl e
      | Inr n \<Rightarrow>
     if n = 0 then Inl RuntimeError
     else
     (case py_getitem zps (PInt 0) of
        Inl e \<Rightarrow> Inl e
      | Inr zps0 \<Rightarrow>
     (case py_getitem zps0 (PStr ''zaehlpunkte'') of
        Inl e \<Rightarrow> Inl e
      | Inr l \<Rightarrow>
     (case py_iter l of
        Inl e \<Rightarrow> Inl e
      | Inr zs \<Rightarrow>
     (case filter_zaehlpunkt (zaehlpunkt env) zs of
        Inl e \<Rightarrow> Inl e
      | Inr [] \<Rightarrow> Inl RuntimeError
      | Inr (zp0 # _) \<Rightarrow> translate_dict zp0 (attrs_zaehlpunkte_call env))))))))"

definition get_consumption :: "env \<Rightarrow> datetime \<Rightarrow> exn + pydict" where
  "get_consumption env start_date =
     (case api_verbrauch env start_date of
        Inl e \<Rightarrow> Inl e
      | Inr response \<Rightarrow>
     (case py_contains_str ''Exception'' response of
        Inl e \<Rightarrow> Inl e
      | Inr True \<Rightarrow> Inl RuntimeError
      | Inr False \<Rightarrow> translate_dict response (attrs_verbrauch_call env)))"

subsection \<open>\<^verbatim>\<open>_import_statistics\<close>\<close>

text \<open>
  Control leaves the body of a loop in three ways: an exception, the \<^verbatim>\<open>return\<close>
  statement, or the end of the body with the updated variables.
\<close>

datatype 'a flow = Raise exn | Return | Next 'a

text \<open>The variables the \<^verbatim>\<open>for\<close> loop updates.\<close>

record acc =
  last_ts :: datetime
  sum_acc :: rat
  statistics :: "stat list"

text \<open>
  \<^verbatim>\<open>ts = dt_util.parse_datetime(v['timestamp'])\<close> followed by \<^verbatim>\<open>ts.minute\<close>: a value
  that is no string is a \<^verbatim>\<open>TypeError\<close> of the parser, and \<^verbatim>\<open>None.minute\<close> is an
  \<^verbatim>\<open>AttributeError\<close>.
\<close>

definition parse_ts :: "env \<Rightarrow> pyval \<Rightarrow> exn + datetime" where
  "parse_ts env v =
     (case py_getitem v (PStr ''timestamp'') of
        Inl e \<Rightarrow> Inl e
      | Inr (PStr s) \<Rightarrow>
          (case parse_datetime env s of None \<Rightarrow> Inl AttributeError | Some ts \<Rightarrow> Inr ts)
      | Inr _ \<Rightarrow> Inl TypeError)"

text \<open>One pass through the body of \<^verbatim>\<open>for v in verbrauch['values']\<close>.\<close>

definition reading_step :: "env \<Rightarrow> acc \<Rightarrow> pyval \<Rightarrow> acc flow" where
  "reading_step env a v =
     (case parse_ts env v of
        Inl e \<Rightarrow> Raise e
      | Inr ts \<Rightarrow>
     if dt_minute ts \<noteq> 0 then Return
     else
     (case dt_less ts (last_ts a) of
        Inl e \<Rightarrow> Raise e
      | Inr True \<Rightarrow> Next a
      | Inr False \<Rightarrow>
     (case py_getitem v (PStr ''value'') of
        Inl e \<Rightarrow> Raise e
      | Inr val \<Rightarrow>
     if val = PNone then Next (a\<lparr>last_ts := ts\<rparr>)
     else
     (case py_div_1000 val of
        Inl e \<Rightarrow> Raise e
      | Inr usage \<Rightarrow>
     (case py_getitem v (PStr ''isEstimated'') of
        Inl e \<Rightarrow> Raise e
      | Inr est \<Rightarrow>
          Next \<lparr>last_ts = ts,
                sum_acc = dec_add (sum_acc a) usage,
                statistics = statistics a @
                  [\<lparr>st_start = ts, st_sum = dec_add (sum_acc a) usage, st_state = usage\<rparr>]\<rparr>)))))"

fun for_values :: "env \<Rightarrow> acc \<Rightarrow> pyval list \<Rightarrow> acc flow" where
  "for_values env a [] = Next a"
| "for_values env a (v # vs) =
     (case reading_step env a v of
        Raise e \<Rightarrow> Raise e
      | Return \<Rightarrow> Return
      | Next a' \<Rightarrow> for_values env a' vs)"

text \<open>
  One pass through the body of \<^verbatim>\<open>while start < now\<close>, for the window requested at
  \<open>start\<close>: the fetch, the three checks of the response and the loop over its values.
  \<open>Next\<close> carries the sum and the statistics into the next pass; the two \<^verbatim>\<open>continue\<close>
  statements leave both as they are.
\<close>

definition while_body :: "env \<Rightarrow> datetime \<Rightarrow> rat \<Rightarrow> stat list \<Rightarrow> (rat \<times> stat list) flow" where
  "while_body env start s sts =
     (case get_consumption env start of
        Inl e \<Rightarrow> Raise e
      | Inr verbrauch \<Rightarrow>
     if ''values'' \<notin> fst ` set verbrauch then Return
     else if \<not> py_truthy (dict_get verbrauch ''optIn'') then Next (s, sts)
     else if py_eq_zero (dict_get verbrauch ''consumptionMinimum'') \<and>
             py_eq_zero (dict_get verbrauch ''consumptionMaximum'') then Next (s, sts)
     else
     (case py_iter (dict_get verbrauch ''values'') of
        Inl e \<Rightarrow> Raise e
      | Inr vs \<Rightarrow>
     (case for_values env \<lparr>last_ts = start, sum_acc = s, statistics = sts\<rparr> vs of
        Raise e \<Rightarrow> Raise e
      | Return \<Rightarrow> Return
      | Next a \<Rightarrow> Next (sum_acc a, statistics a))))"

text \<open>
  The \<^verbatim>\<open>while start < now\<close> loop; \<open>start\<close> moves on by 24 hours in every pass. Beside
  the loop variables the model carries the list of the starts passed to
  \<^verbatim>\<open>get_consumption\<close> so far. \<open>Next\<close> is the end of the loop.
\<close>

function while_start :: "env \<Rightarrow> datetime \<Rightarrow> datetime \<Rightarrow> rat \<Rightarrow> stat list \<Rightarrow> datetime list
    \<Rightarrow> (stat list) flow \<times> datetime list" where
  "while_start env now start s sts fetched =
     (if dt_instant start < dt_instant now then
        (case while_body env start s sts of
           Raise e \<Rightarrow> (Raise e, fetched @ [start])
         | Return \<Rightarrow> (Return, fetched @ [start])
         | Next (s', sts') \<Rightarrow>
             while_start env now (dt_add_hours start 24) s' sts' (fetched @ [start]))
      else (Next sts, fetched))"
  by pat_completeness auto
termination
proof (relation "measure (\<lambda>(env, now, start, s, sts, fetched).
                    nat (dt_instant now - dt_instant start))")
qed (auto simp: dt_instant_def dt_add_hours_def usec_per_hour_def)

text \<open>
  The outcome of \<^verbatim>\<open>_import_statistics\<close>: an exception, the bare \<^verbatim>\<open>return\<close> that skips
  the import, or the list handed to \<^verbatim>\<open>async_import_statistics\<close>, the one write to the
  statistics store.
\<close>

datatype import_result = ImportRaised exn | ImportReturned | ImportCommitted "stat list"

definition import_statistics :: "env \<Rightarrow> datetime \<Rightarrow> rat \<Rightarrow> import_result \<times> datetime list" where
  "import_statistics env start s =
     (if tzoff start = None then (ImportRaised ValueError, [])
      else
        (case while_start env (dt_replace_minute0 (utc_datetime (now_import env)))
                (dt_replace_minute0 start) s [] [] of
           (Raise e, fetched) \<Rightarrow> (ImportRaised e, fetched)
         | (Return, fetched) \<Rightarrow> (ImportReturned, fetched)
         | (Next sts, fetched) \<Rightarrow> (ImportCommitted sts, fetched)))"

subsection \<open>\<^verbatim>\<open>is_active\<close>\<close>

text \<open>\<^verbatim>\<open>a or b\<close> is \<open>a\<close> when \<open>a\<close> is truthy and \<open>b\<close> otherwise.\<close>

definition py_or :: "pyval \<Rightarrow> pyval \<Rightarrow> pyval" where
  "py_or a b = (if py_truthy a then a else b)"

definition is_active :: "pydict \<Rightarrow> pyval" where
  "is_active zaehlpunkt_response =
     py_or
       (py_or (PBool (\<not> (''active'' \<in> fst ` set zaehlpunkt_response)))
              (dict_get zaehlpunkt_response ''active''))
       (py_or (PBool (\<not> (''smartMeterReady'' \<in> fst ` set zaehlpunkt_response)))
              (dict_get zaehlpunkt_response ''smartMeterReady''))"

subsection \<open>\<^verbatim>\<open>async_update\<close>\<close>

text \<open>
  A row of \<^verbatim>\<open>get_last_statistics\<close>: its \<^verbatim>\<open>"end"\<close> field has been a number, a string and
  a \<^verbatim>\<open>datetime\<close> in different versions of the recorder, and its \<^verbatim>\<open>"sum"\<close> is a number
  or \<^verbatim>\<open>None\<close>.
\<close>

datatype end_field = EndNumber rat | EndString string | EndDatetime datetime | EndOther

record row =
  row_end :: end_field
  row_sum :: "rat option"

text \<open>How a run of \<^verbatim>\<open>async_update\<close> ends.\<close>

datatype exit_kind =
    Propagated exn
  | Gate
  | BadEndType
  | UnexpectedResult
  | Inactive
  | Caught
  | Completed

record outcome =
  exit_by :: exit_kind
  available :: bool
  committed :: "stat list option"
  api_calls :: "api_call list"

text \<open>\<^verbatim>\<open>except RuntimeError\<close>: the flag is cleared; any other exception leaves the method.\<close>

definition handle_exn :: "exn \<Rightarrow> api_call list \<Rightarrow> outcome" where
  "handle_exn e calls =
     (if e = RuntimeError
      then \<lparr>exit_by = Caught, available = False, committed = None, api_calls = calls\<rparr>
      else \<lparr>exit_by = Propagated e, available = True, committed = None, api_calls = calls\<rparr>)"

text \<open>The \<^verbatim>\<open>try\<close> block.\<close>

definition try_block :: "env \<Rightarrow> datetime \<Rightarrow> rat \<Rightarrow> outcome" where
  "try_block env start s =
     (case api_login env of
        Some e \<Rightarrow> handle_exn e [CallLogin]
      | None \<Rightarrow>
     (case get_zaehlpunkt env of
        Inl e \<Rightarrow> handle_exn e [CallLogin, CallZaehlpunkte]
      | Inr zp \<Rightarrow>
     if \<not> py_truthy (is_active zp)
     then \<lparr>exit_by = Inactive, available = False, committed = None,
            api_calls = [CallLogin, CallZaehlpunkte]\<rparr>
     else
     (case import_statistics env start s of
        (ImportRaised e, fetched) \<Rightarrow>
          handle_exn e ([CallLogin, CallZaehlpunkte] @ map CallVerbrauch fetched)
      | (ImportReturned, fetched) \<Rightarrow>
          \<lparr>exit_by = Completed, available = True, committed = None,
           api_calls = [CallLogin, CallZaehlpunkte] @ map CallVerbrauch fetched\<rparr>
      | (ImportCommitted sts, fetched) \<Rightarrow>
          \<lparr>exit_by = Completed, available = True, committed = Some sts,
           api_calls = [CallLogin, CallZaehlpunkte] @ map CallVerbrauch fetched\<rparr>)))"

text \<open>
  The conversions of the \<^verbatim>\<open>"end"\<close> field: a number through \<^verbatim>\<open>utc_from_timestamp\<close>, a
  string through \<^verbatim>\<open>parse_datetime\<close>; \<open>None\<close> when the result is no \<^verbatim>\<open>datetime\<close>.
\<close>

definition coerce_end :: "env \<Rightarrow> end_field \<Rightarrow> datetime option" where
  "coerce_end env e =
     (case e of
        EndNumber x \<Rightarrow> Some (utc_from_timestamp env x)
      | EndString s \<Rightarrow> parse_datetime env s
      | EndDatetime d \<Rightarrow> Some d
      | EndOther \<Rightarrow> None)"

text \<open>
  \<^verbatim>\<open>len(last_inserted_stat) == 0 or len(last_inserted_stat[self._id]) == 0\<close>: the
  subscript raises \<^verbatim>\<open>KeyError\<close> when the result has entries but none for this sensor.
\<close>

definition no_previous_data :: "(string \<times> row list) list \<Rightarrow> string \<Rightarrow> exn + bool" where
  "no_previous_data last_inserted_stat sid =
     (if length last_inserted_stat = 0 then Inr True
      else (case map_of last_inserted_stat sid of
              None \<Rightarrow> Inl KeyError
            | Some rows \<Rightarrow> Inr (length rows = 0)))"

text \<open>
  \<^verbatim>\<open>async_update\<close>, given the answer of \<^verbatim>\<open>get_last_statistics\<close> for the sensor's
  statistic id \<open>sid\<close>. The cold start passes \<^verbatim>\<open>timezone.utc\<close> to \<^verbatim>\<open>today\<close>.
\<close>

definition async_update :: "env \<Rightarrow> string \<Rightarrow> (string \<times> row list) list \<Rightarrow> outcome" where
  "async_update env sid last_inserted_stat =
     (case no_previous_data last_inserted_stat sid of
        Inl e \<Rightarrow> \<lparr>exit_by = Propagated e, available = True, committed = None, api_calls = []\<rparr>
      | Inr True \<Rightarrow>
          (case call_today 1 (now_local env) of
             Inl e \<Rightarrow>
               \<lparr>exit_by = Propagated e, available = True, committed = None, api_calls = []\<rparr>
           | Inr t \<Rightarrow> try_block env (dt_add_hours t (- 48)) 0)
      | Inr False \<Rightarrow>
          (case map_of last_inserted_stat sid of
             None \<Rightarrow>
               \<lparr>exit_by = Propagated KeyError, available = True, committed = None,
                api_calls = []\<rparr>
           | Some rows \<Rightarrow>
          if length last_inserted_stat = 1 \<and> length rows = 1 then
            (case row_sum (rows ! 0) of
               None \<Rightarrow>
                 \<lparr>exit_by = Propagated TypeError, available = True, committed = None,
                  api_calls = []\<rparr>
             | Some s \<Rightarrow>
            (case coerce_end env (row_end (rows ! 0)) of
               None \<Rightarrow>
                 \<lparr>exit_by = BadEndType, available = True, committed = None, api_calls = []\<rparr>
             | Some start \<Rightarrow>
            (case dt_diff (dt_replace_microsecond0 (utc_datetime (now_update env)))
                          (dt_replace_microsecond0 start) of
               Inl e \<Rightarrow>
                 \<lparr>exit_by = Propagated e, available = True, committed = None, api_calls = []\<rparr>
             | Inr delta_t \<Rightarrow>
            if delta_t \<le> 24 * usec_per_hour
            then \<lparr>exit_by = Gate, available = True, committed = None, api_calls = []\<rparr>
            else try_block env start s)))
          else
            \<lparr>exit_by = UnexpectedResult, available = True, committed = None, api_calls = []\<rparr>))"


section \<open>Concrete runs\<close>

text \<open>
  The scenarios are run in January 2024. Their parser reads the stamps
  \<^verbatim>\<open>2024-01-DDTHH:MM:SS+00:00\<close> and nothing else; 2024-01-01T00:00:00Z is 1704067200 seconds
  after the epoch.
\<close>

definition two_digits :: "char \<Rightarrow> char \<Rightarrow> int option" where
  "two_digits a b =
     (if ascii_digit a \<and> ascii_digit b then Some (10 * digit_val a + digit_val b) else None)"

definition jan2024 :: "int \<Rightarrow> int \<Rightarrow> int \<Rightarrow> int \<Rightarrow> datetime" where
  "jan2024 d h m sec =
     utc_datetime ((1704067200 + (d - 1) * 86400 + h * 3600 + m * 60 + sec) * 1000000)"

definition parse_jan2024 :: "string \<Rightarrow> datetime option" where
  "parse_jan2024 str =
     (if length str = 25 \<and> take 8 str = ''2024-01-'' \<and> str ! 10 = CHR ''T'' \<and>
         str ! 13 = CHR '':'' \<and> str ! 16 = CHR '':'' \<and> drop 19 str = ''+00:00''
      then (case (two_digits (str ! 8) (str ! 9), two_digits (str ! 11) (str ! 12),
                  two_digits (str ! 14) (str ! 15), two_digits (str ! 17) (str ! 18)) of
              (Some d, Some h, Some m, Some sec) \<Rightarrow>
                if 1 \<le> d \<and> d \<le> 31 \<and> h < 24 \<and> m < 60 \<and> sec < 60
                then Some (jan2024 d h m sec) else None
            | _ \<Rightarrow> None)
      else None)"

text \<open>One reading of a window, as the API delivers it.\<close>

definition reading :: "string \<Rightarrow> pyval \<Rightarrow> pyval" where
  "reading stamp v =
     PDict [(''value'', v), (''timestamp'', PStr stamp), (''isEstimated'', PBool False)]"

text \<open>A response of the consumption call with hourly data.\<close>

definition window :: "pyval list \<Rightarrow> pyval" where
  "window vs =
     PDict [(''quarter-hour-opt-in'', PBool True), (''consumptionMinimum'', PInt 1),
            (''consumptionMaximum'', PInt 900), (''values'', PList vs)]"

text \<open>
  A meter whose consumption call answers from a table keyed by the requested start, and
  with an empty dictionary elsewhere; every reading of the clock gives \<open>now\<close>. The
  short scenarios below run at 23:30 on 2024-01-08 and resume from 23:00 the day before, so
  that they request exactly one window.
\<close>

definition scenario_env :: "(int \<times> pyval) list \<Rightarrow> datetime \<Rightarrow> env" where
  "scenario_env responses now =
     \<lparr>zaehlpunkt = ''AT0010000000000000001000004392265'',
      attrs_zaehlpunkte_call =
        [(''zaehlpunktnummer'', ''zaehlpunktnummer''), (''isActive'', ''active''),
         (''isSmartMeterMarketReady'', ''smartMeterReady'')],
      attrs_verbrauch_call =
        [(''quarter-hour-opt-in'', ''optIn''), (''consumptionMinimum'', ''consumptionMinimum''),
         (''consumptionMaximum'', ''consumptionMaximum''), (''values'', ''values'')],
      parse_datetime = parse_jan2024,
      utc_from_timestamp = (\<lambda>x. utc_datetime (round_half_even (x * 1000000))),
      api_login = None,
      api_zaehlpunkte =
        Inr (PList [PDict [(''zaehlpunkte'',
               PList [PDict [(''zaehlpunktnummer'', PStr ''AT0010000000000000001000004392265''),
                             (''isActive'', PBool True)]])]]),
      api_verbrauch =
        (\<lambda>start. case map_of responses (dt_instant start) of
                    None \<Rightarrow> Inr (PDict [])
                  | Some r \<Rightarrow> Inr r),
      now_update = dt_instant now,
      now_import = dt_instant now,
      now_local = dt_instant now\<rparr>"

text \<open>The accumulator at the start of the window of 2024-01-08, with an empty sum.\<close>

definition acc0 :: acc where
  "acc0 = \<lparr>last_ts = jan2024 8 0 0 0, sum_acc = 0, statistics = []\<rparr>"

text \<open>Ten hourly readings of 500 each, then a window without values (scenario B).\<close>

definition scenario_b :: env where
  "scenario_b =
     scenario_env
       [(dt_instant (jan2024 8 0 0 0),
         window [reading ''2024-01-08T00:00:00+00:00'' (PInt 500),
                 reading ''2024-01-08T01:00:00+00:00'' (PInt 500),
                 reading ''2024-01-08T02:00:00+00:00'' (PInt 500),
                 reading ''2024-01-08T03:00:00+00:00'' (PInt 500),
                 reading ''2024-01-08T04:00:00+00:00'' (PInt 500),
                 reading ''2024-01-08T05:00:00+00:00'' (PInt 500),
                 reading ''2024-01-08T06:00:00+00:00'' (PInt 500),
                 reading ''2024-01-08T07:00:00+00:00'' (PInt 500),
                 reading ''2024-01-08T08:00:00+00:00'' (PInt 500),
                 reading ''2024-01-08T09:00:00+00:00'' (PInt 500)]),
        (dt_instant (jan2024 9 0 0 0),
         window [reading ''2024-01-09T00:00:00+00:00'' PNone,
                 reading ''2024-01-09T01:00:00+00:00'' PNone,
                 reading ''2024-01-09T02:00:00+00:00'' PNone])]
       (jan2024 10 0 0 0)"

text \<open>A window of five readings, then a response without \<^verbatim>\<open>values\<close> (scenario C).\<close>

definition scenario_c :: env where
  "scenario_c =
     scenario_env
       [(dt_instant (jan2024 8 0 0 0),
         window [reading ''2024-01-08T00:00:00+00:00'' (PInt 500),
                 reading ''2024-01-08T01:00:00+00:00'' (PInt 500),
                 reading ''2024-01-08T02:00:00+00:00'' (PInt 500),
                 reading ''2024-01-08T03:00:00+00:00'' (PInt 500),
                 reading ''2024-01-08T04:00:00+00:00'' (PInt 0)]),
        (dt_instant (jan2024 9 0 0 0),
         PDict [(''quarter-hour-opt-in'', PBool True)])]
       (jan2024 10 0 0 0)"

text \<open>A window whose second reading is stamped 12:07 (scenario D).\<close>

definition scenario_d :: env where
  "scenario_d =
     scenario_env
       [(dt_instant (jan2024 7 23 0 0),
         window [reading ''2024-01-08T11:00:00+00:00'' (PInt 500),
                 reading ''2024-01-08T12:07:00+00:00'' (PInt 500)])]
       (jan2024 8 23 30 0)"

text \<open>A window with a reading stamped thirty seconds after the hour.\<close>

definition scenario_seconds :: env where
  "scenario_seconds =
     scenario_env
       [(dt_instant (jan2024 7 23 0 0),
         window [reading ''2024-01-08T12:00:30+00:00'' (PInt 500)])]
       (jan2024 8 23 30 0)"

text \<open>A window that repeats the stamp of an hour.\<close>

definition scenario_repeat :: env where
  "scenario_repeat =
     scenario_env
       [(dt_instant (jan2024 7 23 0 0),
         window [reading ''2024-01-08T05:00:00+00:00'' (PInt 1),
                 reading ''2024-01-08T05:00:00+00:00'' (PInt 1)])]
       (jan2024 8 23 30 0)"

section \<open>Notions used in the statements\<close>

text \<open>The accessors \<^verbatim>\<open>strint\<close> produces: strings, and integers that are not negative.\<close>

definition good_accessor :: "pyval \<Rightarrow> bool" where
  "good_accessor a = (case a of PInt n \<Rightarrow> 0 \<le> n | PStr s \<Rightarrow> True | _ \<Rightarrow> False)"


text \<open>The destination keys of an attribute table whose source path resolves.\<close>

definition picked :: "pyval \<Rightarrow> (string \<times> string) list \<Rightarrow> string set" where
  "picked d attrs = {dest. \<exists>src. (src, dest) \<in> set attrs \<and> dict_path src d \<noteq> Inr PNone}"




text \<open>Every start time has the minute zero.\<close>

definition minute_zero :: "stat list \<Rightarrow> bool" where
  "minute_zero sts = (\<forall>p \<in> set sts. dt_minute (st_start p) = 0)"


text \<open>What a run of \<^verbatim>\<open>_import_statistics\<close> writes to the statistics store.\<close>

definition committed_of :: "import_result \<Rightarrow> stat list option" where
  "committed_of res = (case res of ImportCommitted sts \<Rightarrow> Some sts | _ \<Rightarrow> None)"

text \<open>A response with a nested dictionary, a list and a key that is a digit.\<close>

definition sample_response :: pyval where
  "sample_response =
     PDict [(''anlage'', PDict [(''typ'', PStr ''TAGSTROM'')]),
            (''idex'', PList [PInt 7, PNone]),
            (''0'', PStr ''zero'')]"



text \<open>
  The binary64 number nearest to 1/1000, which is what \<^verbatim>\<open>1 / 1000.0\<close> evaluates to, and the
  28-digit decimals \<^verbatim>\<open>0.001000000000000000020816681712\<close> and
  \<^verbatim>\<open>0.002000000000000000041633363424\<close>.
\<close>

definition milli_float :: rat where
  "milli_float = 1152921504606847 / 2 ^ 60"

definition milli_sum1 :: rat where
  "milli_sum1 = 1000000000000000020816681712 / 10 ^ 30"

definition milli_sum2 :: rat where
  "milli_sum2 = 2000000000000000041633363424 / 10 ^ 30"

text \<open>The statistic id of the sensor, and a store that holds one last row for it.\<close>

definition sensor_id :: string where
  "sensor_id = ''sensor.at0010000000000000001000004392265''"

definition checkpoint :: "end_field \<Rightarrow> rat \<Rightarrow> (string \<times> row list) list" where
  "checkpoint e s = [(sensor_id, [\<lparr>row_end = e, row_sum = Some s\<rparr>])]"


section \<open>Properties of utils.py\<close>

lemma dict_set_key_iff: "x \<in> fst ` set (dict_set d k v) \<longleftrightarrow> x = k \<or> x \<in> fst ` set d"
  by (induction d) force+

lemma dict_set_keys: "fst ` set (dict_set d k v) = insert k (fst ` set d)"
  using dict_set_key_iff by blast

lemma digits_nonneg:
  "list_all ascii_digit s \<Longrightarrow> 0 \<le> n \<Longrightarrow> 0 \<le> foldl (\<lambda>acc c. 10 * acc + digit_val c) n s"
  by (induction s arbitrary: n) (auto simp: ascii_digit_def digit_val_def)

lemma strint_good: "strint s = Inr a \<Longrightarrow> good_accessor a"
  using digits_nonneg [of s 0]
  by (auto simp: strint_def py_int_of_str_def good_accessor_def split: if_splits)

lemma strint_all_good: "strint_all ss = Inr as \<Longrightarrow> list_all good_accessor as"
  by (induction ss arbitrary: as) (auto split: sum.splits dest: strint_good)

lemma access_step_good: "good_accessor i \<Longrightarrow> access_step acc i = Inr (select acc i)"
proof (cases i)
  case (PInt n)
  assume "good_accessor i"
  with PInt have "0 \<le> n" by (simp add: good_accessor_def)
  with PInt show ?thesis
    by (cases acc) (auto simp: access_step_def seq_index_def)
next
  case (PStr k)
  show ?thesis
  proof (cases acc)
    case (PDict kvs)
    with PStr show ?thesis
      by (auto simp: access_step_def map_of_eq_None_iff split: option.splits
          dest!: map_of_SomeD intro: rev_image_eqI)
  qed (simp_all add: PStr access_step_def)
qed (simp_all add: good_accessor_def)

lemma reduce_access_good:
  "list_all good_accessor is \<Longrightarrow> reduce_access is acc = Inr (foldl select acc is)"
  by (induction "is" arbitrary: acc) (auto simp: access_step_good)

lemma dict_path_is_Inr: "\<exists>v. dict_path path d = Inr v"
  by (simp add: dict_path_def split: sum.splits)

lemma picked_Cons:
  "picked d ((src, dest) # attrs) =
     (if dict_path src d \<noteq> Inr PNone then insert dest (picked d attrs) else picked d attrs)"
  by (auto simp: picked_def)

lemma translate_loop_keys:
  "\<exists>r'. translate_loop d attrs r = Inr r' \<and> fst ` set r' = fst ` set r \<union> picked d attrs"
proof (induction attrs arbitrary: r)
  case Nil
  then show ?case by (simp add: picked_def)
next
  case (Cons sd attrs)
  obtain src dest where sd: "sd = (src, dest)" by (cases sd)
  obtain v where v: "dict_path src d = Inr v" using dict_path_is_Inr by blast
  show ?case
  proof (cases "v = PNone")
    case True
    with Cons.IH [of r] sd v show ?thesis by (simp add: picked_Cons)
  next
    case False
    with Cons.IH [of "dict_set r dest v"] sd v show ?thesis
      by (auto simp: dict_set_keys picked_Cons)
  qed
qed


text \<open>
  Claim C10. \<^verbatim>\<open>dict_path\<close> always returns: its result is \<^verbatim>\<open>None\<close> or the value the path
  addresses. Whenever the accessors can be built, the fold over them does not raise,
  because every subscript is taken behind \<^verbatim>\<open>is_valid_access\<close>; the one exception of the
  body, \<^verbatim>\<open>ValueError\<close> of \<^verbatim>\<open>int\<close> on a digit that is not ASCII, is caught.
  \<^verbatim>\<open>translate_dict\<close> returns a dictionary whose keys are exactly the destinations whose
  source path resolves to a value other than \<^verbatim>\<open>None\<close>.
\<close>

theorem dict_path_never_raises:
  "(\<exists>v. dict_path path d = Inr v \<and>
        (v = PNone \<or> (\<exists>accessors. strint_all (split_dot path) = Inr accessors \<and>
                                   v = addressed accessors d))) \<and>
   (\<forall>accessors. strint_all (split_dot path) = Inr accessors \<longrightarrow>
        reduce_access accessors d = Inr (addressed accessors d)) \<and>
   (\<exists>r. translate_dict d attrs = Inr r \<and>
        fst ` set r = {dest. \<exists>src. (src, dest) \<in> set attrs \<and> dict_path src d \<noteq> Inr PNone})"
proof (intro conjI)
  show "\<exists>v. dict_path path d = Inr v \<and>
        (v = PNone \<or> (\<exists>accessors. strint_all (split_dot path) = Inr accessors \<and>
                                   v = addressed accessors d))"
    by (auto simp: dict_path_def dict_path_try_def addressed_def
        reduce_access_good strint_all_good split: sum.splits)
  show "\<forall>accessors. strint_all (split_dot path) = Inr accessors \<longrightarrow>
        reduce_access accessors d = Inr (addressed accessors d)"
    by (simp add: addressed_def reduce_access_good strint_all_good)
  show "\<exists>r. translate_dict d attrs = Inr r \<and>
        fst ` set r = {dest. \<exists>src. (src, dest) \<in> set attrs \<and> dict_path src d \<noteq> Inr PNone}"
    using translate_loop_keys [of d attrs "[]"] by (simp add: translate_dict_def picked_def)
qed

theorem dict_path_never_raises_witness:
  "dict_path ''anlage.typ'' sample_response = Inr (PStr ''TAGSTROM'') \<and>
   dict_path ''idex.0'' sample_response = Inr (PInt 7) \<and>
   dict_path ''idex.2'' sample_response = Inr PNone \<and>
   dict_path ''idex.typ'' sample_response = Inr PNone \<and>
   dict_path ''0'' sample_response = Inr PNone \<and>
   dict_path [CHR 0xB2] sample_response = Inr PNone \<and>
   dict_path_try [CHR 0xB2] sample_response = Inl ValueError \<and>
   strint_all (split_dot ''idex.0'') = Inr [PStr ''idex'', PInt 0] \<and>
   reduce_access [PStr ''idex'', PInt 0] sample_response
     = Inr (addressed [PStr ''idex'', PInt 0] sample_response) \<and>
   translate_dict sample_response
     [(''anlage.typ'', ''type''), (''idex.1'', ''first''), (''missing'', ''other'')]
     = Inr [(''type'', PStr ''TAGSTROM'')]"
proof -
  have ev: "dict_path ''anlage.typ'' sample_response = Inr (PStr ''TAGSTROM'')"
    "dict_path ''idex.0'' sample_response = Inr (PInt 7)"
    "dict_path ''idex.2'' sample_response = Inr PNone"
    "dict_path ''idex.typ'' sample_response = Inr PNone"
    "dict_path ''0'' sample_response = Inr PNone"
    "dict_path [CHR 0xB2] sample_response = Inr PNone"
    "dict_path_try [CHR 0xB2] sample_response = Inl ValueError"
    "strint_all (split_dot ''idex.0'') = Inr [PStr ''idex'', PInt 0]"
    "translate_dict sample_response
       [(''anlage.typ'', ''type''), (''idex.1'', ''first''), (''missing'', ''other'')]
       = Inr [(''type'', PStr ''TAGSTROM'')]"
    by code_simp+
  from dict_path_never_raises [of "''idex.0''" sample_response "[]"] ev(8)
  have "reduce_access [PStr ''idex'', PInt 0] sample_response
          = Inr (addressed [PStr ''idex'', PInt 0] sample_response)"
    by blast
  with ev show ?thesis by simp
qed



section \<open>Rounding\<close>

declare ilog_int.simps [simp del]


lemma ilog_int_bounds:
  "2 \<le> b \<Longrightarrow> 1 \<le> n \<Longrightarrow>
   0 \<le> ilog_int b n \<and> b ^ nat (ilog_int b n) \<le> n \<and> n < b ^ (nat (ilog_int b n) + 1)"
proof (induction b n rule: ilog_int.induct)
  case (1 b n)
  show ?case
  proof (cases "n < b")
    case True
    with "1.prems" show ?thesis by (simp add: ilog_int.simps [of b n])
  next
    case False
    with "1.prems" have "0 < n div b"
      using pos_imp_zdiv_pos_iff [of b n] by simp
    then have m: "1 \<le> n div b" by simp
    from False "1.prems" have cond: "\<not> (b < 2 \<or> n < b)" by simp
    let ?k = "ilog_int b (n div b)"
    from "1.IH" [OF cond "1.prems"(1) m]
    have k0: "0 \<le> ?k" and lo: "b ^ nat ?k \<le> n div b" and hi: "n div b < b ^ (nat ?k + 1)"
      by simp_all
    have eq: "ilog_int b n = ?k + 1"
      using cond by (simp add: ilog_int.simps [of b n])
    have nat_eq: "nat (?k + 1) = nat ?k + 1"
      using k0 by (simp add: nat_add_distrib)
    have bpos: "0 < b" using "1.prems"(1) by simp
    have "b * b ^ nat ?k \<le> b * (n div b)"
      using lo bpos by (simp add: mult_left_mono)
    also have "\<dots> \<le> n"
      using bpos by (metis mult.commute div_mult_mod_eq pos_mod_sign le_add_same_cancel1)
    finally have lo': "b ^ (nat ?k + 1) \<le> n" by simp
    have "n mod b < b" using bpos by simp
    moreover have "n = b * (n div b) + n mod b" by simp
    ultimately have "n < b * (n div b) + b" by linarith
    also have "\<dots> = b * (n div b + 1)" by (simp add: algebra_simps)
    also have "\<dots> \<le> b * b ^ (nat ?k + 1)"
      using hi bpos by (intro mult_left_mono) simp_all
    finally have hi': "n < b ^ (nat ?k + 1 + 1)" by simp
    show ?thesis
      using k0 lo' hi' by (simp add: eq nat_eq)
  qed
qed

lemma ilog_bounds:
  fixes x :: rat
  assumes b: "2 \<le> b" and x: "0 < x"
  shows "of_int b powi (ilog b x) \<le> x \<and> x < of_int b powi (ilog b x + 1)"
proof -
  obtain p q where pq: "quotient_of x = (p, q)" by (cases "quotient_of x")
  then have q: "0 < q" and xe: "x = of_int p / of_int q"
    by (simp_all add: quotient_of_denom_pos quotient_of_div)
  with x have p: "1 \<le> p"
    by (simp add: zero_less_divide_iff) 
  from q have q1: "1 \<le> q" by simp
  let ?B = "of_int b :: rat"
  have B: "1 < ?B" "0 < ?B" "?B \<noteq> 0" using b by simp_all
  let ?kp = "ilog_int b p" and ?kq = "ilog_int b q"
  from ilog_int_bounds [OF b p]
  have kp: "0 \<le> ?kp" "b ^ nat ?kp \<le> p" "p < b ^ (nat ?kp + 1)" by simp_all
  from ilog_int_bounds [OF b q1]
  have kq: "0 \<le> ?kq" "b ^ nat ?kq \<le> q" "q < b ^ (nat ?kq + 1)" by simp_all
  have P: "?B powi ?kp \<le> of_int p" "of_int p < ?B powi (?kp + 1)"
  proof -
    have "(of_int (b ^ nat ?kp) :: rat) \<le> of_int p" using kp(2) by (simp only: of_int_le_iff)
    then show "?B powi ?kp \<le> of_int p" using kp(1) by (simp add: power_int_def)
    have "(of_int p :: rat) < of_int (b ^ (nat ?kp + 1))" using kp(3) by (simp only: of_int_less_iff)
    then show "of_int p < ?B powi (?kp + 1)" using kp(1) by (simp add: power_int_def nat_add_distrib)
  qed
  have Q: "?B powi ?kq \<le> of_int q" "of_int q < ?B powi (?kq + 1)"
  proof -
    have "(of_int (b ^ nat ?kq) :: rat) \<le> of_int q" using kq(2) by (simp only: of_int_le_iff)
    then show "?B powi ?kq \<le> of_int q" using kq(1) by (simp add: power_int_def)
    have "(of_int q :: rat) < of_int (b ^ (nat ?kq + 1))" using kq(3) by (simp only: of_int_less_iff)
    then show "of_int q < ?B powi (?kq + 1)" using kq(1) by (simp add: power_int_def nat_add_distrib)
  qed
  have Qpos: "0 < ?B powi ?kq" "0 < ?B powi (?kq + 1)" "0 < (of_int q :: rat)"
    using B q by (simp_all add: zero_less_power_int)
  let ?e = "?kp - ?kq"
  have up: "x < ?B powi (?e + 1)"
  proof -
    have "x < ?B powi (?kp + 1) / of_int q"
      unfolding xe using P(2) Qpos(3) by (simp add: divide_strict_right_mono)
    also have "\<dots> \<le> ?B powi (?kp + 1) / ?B powi ?kq"
      using Q(1) Qpos B by (intro divide_left_mono) (simp_all add: zero_less_power_int less_imp_le)
    also have "\<dots> = ?B powi (?e + 1)"
      using B by (simp add: power_int_diff [symmetric] algebra_simps)
    finally show ?thesis .
  qed
  have low: "?B powi (?e - 1) \<le> x"
  proof -
    have "?B powi (?e - 1) = ?B powi ?kp / ?B powi (?kq + 1)"
      using B by (simp add: power_int_diff [symmetric] algebra_simps)
    also have "\<dots> \<le> of_int p / ?B powi (?kq + 1)"
      using P(1) Qpos by (simp add: divide_right_mono)
    also have "\<dots> \<le> of_int p / of_int q"
      using Q(2) Qpos p by (intro divide_left_mono) simp_all
    finally show ?thesis by (simp add: xe)
  qed
  show ?thesis
  proof (cases "?B powi ?e \<le> x")
    case True
    then have "ilog b x = ?e" by (simp add: ilog_def pq)
    with True up show ?thesis by simp
  next
    case False
    then have "ilog b x = ?e - 1" by (simp add: ilog_def pq)
    with False low show ?thesis by simp
  qed
qed

lemma powi_mono:
  fixes B :: rat
  assumes "1 < B" "m \<le> n"
  shows "B powi m \<le> B powi n"
  using assms by (simp add: power_int_increasing)

lemma ilog_unique:
  fixes x :: rat
  assumes b: "2 \<le> b" and lo: "of_int b powi k \<le> x" and hi: "x < of_int b powi (k + 1)"
  shows "ilog b x = k"
proof -
  let ?B = "of_int b :: rat"
  have B: "1 < ?B" using b by simp
  then have "0 < ?B powi k" by (simp add: zero_less_power_int)
  with lo have x: "0 < x" by simp
  from ilog_bounds [OF b x]
  have l: "?B powi (ilog b x) \<le> x" and h: "x < ?B powi (ilog b x + 1)" by simp_all
  have "\<not> ilog b x + 1 \<le> k"
  proof
    assume "ilog b x + 1 \<le> k"
    then have "?B powi (ilog b x + 1) \<le> ?B powi k" using B by (rule powi_mono [rotated])
    with h lo show False by simp
  qed
  moreover have "\<not> k + 1 \<le> ilog b x"
  proof
    assume "k + 1 \<le> ilog b x"
    then have "?B powi (k + 1) \<le> ?B powi (ilog b x)" using B by (rule powi_mono [rotated])
    with hi l show False by simp
  qed
  ultimately show ?thesis by simp
qed



lemma rhe_of_int: "round_half_even (of_int n) = n"
  by (simp add: round_half_even_def)






lemma ilog10_unique:
  fixes x :: rat
  shows "10 powi k \<le> x \<Longrightarrow> x < 10 powi (k + 1) \<Longrightarrow> ilog 10 x = k"
  using ilog_unique [of 10 k x] by simp














section \<open>The loops of \<^verbatim>\<open>_import_statistics\<close>\<close>

declare while_start.simps [simp del]





lemma reading_step_Next_cases:
  assumes "reading_step env a v = Next a1"
  shows "a1 = a \<or>
         (\<exists>ts. parse_ts env v = Inr ts \<and> dt_minute ts = 0 \<and> dt_less ts (last_ts a) = Inr False \<and>
            (a1 = a\<lparr>last_ts := ts\<rparr> \<or>
             (\<exists>u. a1 = \<lparr>last_ts = ts, sum_acc = dec_add (sum_acc a) u,
                        statistics = statistics a @
                          [\<lparr>st_start = ts, st_sum = dec_add (sum_acc a) u, st_state = u\<rparr>]\<rparr>)))"
proof (cases "parse_ts env v")
  case (Inl e)
  with assms show ?thesis by (simp add: reading_step_def)
next
  case (Inr ts)
  show ?thesis
  proof (cases "dt_minute ts = 0")
    case False
    with Inr assms show ?thesis by (simp add: reading_step_def)
  next
    case m: True
    show ?thesis
    proof (cases "dt_less ts (last_ts a)")
      case (Inl e)
      with Inr m assms show ?thesis by (simp add: reading_step_def)
    next
      case lt: (Inr b)
      show ?thesis
      proof (cases b)
        case True
        with Inr m lt assms show ?thesis by (simp add: reading_step_def)
      next
        case False
        with Inr m lt assms show ?thesis
          by (auto simp: reading_step_def split: sum.splits if_splits)
      qed
    qed
  qed
qed

lemma reading_step_minute_zero:
  "reading_step env a v = Next a1 \<Longrightarrow> minute_zero (statistics a) \<Longrightarrow> minute_zero (statistics a1)"
  by (drule reading_step_Next_cases) (auto simp: minute_zero_def)

lemma for_values_minute_zero:
  "for_values env a vs = Next a' \<Longrightarrow> minute_zero (statistics a) \<Longrightarrow> minute_zero (statistics a')"
proof (induction vs arbitrary: a)
  case Nil
  then show ?case by simp
next
  case (Cons v vs)
  then show ?case
    by (cases "reading_step env a v") (auto dest: reading_step_minute_zero)
qed




lemma for_values_misaligned:
  "r \<in> set vs \<Longrightarrow> parse_ts env r = Inr ts \<Longrightarrow> dt_minute ts \<noteq> 0 \<Longrightarrow>
   for_values env a vs \<noteq> Next a'"
proof (induction vs arbitrary: a)
  case Nil
  then show ?case by simp
next
  case (Cons v vs)
  show ?case
  proof (cases "v = r")
    case True
    with Cons.prems show ?thesis by (simp add: reading_step_def)
  next
    case False
    with Cons.prems have "r \<in> set vs" by simp
    from Cons.IH [OF this Cons.prems(2,3)] show ?thesis
      by (cases "reading_step env a v") simp_all
  qed
qed

lemma while_body_no_values:
  "get_consumption env w = Inr verbrauch \<Longrightarrow> ''values'' \<notin> fst ` set verbrauch \<Longrightarrow>
   while_body env w s sts = Return"
  by (simp add: while_body_def)

lemma while_body_misaligned:
  assumes "get_consumption env w = Inr verbrauch"
    and "py_truthy (dict_get verbrauch ''optIn'')"
    and "\<not> (py_eq_zero (dict_get verbrauch ''consumptionMinimum'') \<and>
            py_eq_zero (dict_get verbrauch ''consumptionMaximum''))"
    and "py_iter (dict_get verbrauch ''values'') = Inr vs"
    and "r \<in> set vs" "parse_ts env r = Inr ts" "dt_minute ts \<noteq> 0"
  shows "while_body env w s sts \<noteq> Next x"
proof -
  have "for_values env \<lparr>last_ts = w, sum_acc = s, statistics = sts\<rparr> vs \<noteq> Next a" for a
    using assms(5-7) by (rule for_values_misaligned)
  then show ?thesis
    using assms(1-4)
    by (cases "for_values env \<lparr>last_ts = w, sum_acc = s, statistics = sts\<rparr> vs")
       (auto simp: while_body_def)
qed

lemma while_body_minute_zero:
  "while_body env w s sts = Next (s', sts') \<Longrightarrow> minute_zero sts \<Longrightarrow> minute_zero sts'"
  by (auto simp: while_body_def split: sum.splits if_splits flow.splits
      dest: for_values_minute_zero)


lemma while_start_invariant:
  assumes "\<forall>w s sts s' sts'. P s sts \<longrightarrow> while_body env w s sts = Next (s', sts') \<longrightarrow> P s' sts'"
    and "P s sts"
    and "while_start env now start s sts fetched = (Next out, fetched')"
  shows "\<exists>s'. P s' out"
  using assms
proof (induction env now start s sts fetched rule: while_start.induct)
  case (1 env now start s sts fetched)
  note step = "1.prems"(1)
  show ?case
  proof (cases "dt_instant start < dt_instant now")
    case False
    with "1.prems"(2,3) show ?thesis
      by (auto simp: while_start.simps [of env now start])
  next
    case True
    show ?thesis
    proof (cases "while_body env start s sts")
      case (Raise e)
      with True "1.prems"(3) show ?thesis by (simp add: while_start.simps [of env now start])
    next
      case Return
      with True "1.prems"(3) show ?thesis by (simp add: while_start.simps [of env now start])
    next
      case (Next x)
      obtain s' sts' where x: "x = (s', sts')" by (cases x)
      have "P s' sts'" using step "1.prems"(2) Next x by blast
      moreover have "while_start env now (dt_add_hours start 24) s' sts' (fetched @ [start])
                     = (Next out, fetched')"
        using True "1.prems"(3) Next x by (simp add: while_start.simps [of env now start])
      ultimately show ?thesis
        using "1.IH" [OF True Next x [symmetric] step] by blast
    qed
  qed
qed

lemma while_start_blocked:
  assumes "\<forall>s sts x. while_body env w s sts \<noteq> Next x"
    and "while_start env now start s sts fetched = (res, fetched')"
    and "w \<in> set fetched'" and "w \<notin> set fetched"
  shows "res \<noteq> Next out"
  using assms
proof (induction env now start s sts fetched rule: while_start.induct)
  case (1 env now start s sts fetched)
  note blocked = "1.prems"(1)
  show ?case
  proof (cases "dt_instant start < dt_instant now")
    case False
    with "1.prems"(2-) show ?thesis
      by (auto simp: while_start.simps [of env now start])
  next
    case True
    show ?thesis
    proof (cases "while_body env start s sts")
      case (Raise e)
      with True "1.prems"(2) show ?thesis by (auto simp: while_start.simps [of env now start])
    next
      case Return
      with True "1.prems"(2) show ?thesis by (auto simp: while_start.simps [of env now start])
    next
      case (Next x)
      obtain s' sts' where x: "x = (s', sts')" by (cases x)
      from Next x blocked have "w \<noteq> start" by auto
      with "1.prems"(4) have nin: "w \<notin> set (fetched @ [start])" by simp
      have "while_start env now (dt_add_hours start 24) s' sts' (fetched @ [start])
                     = (res, fetched')"
        using True "1.prems"(2) Next x by (simp add: while_start.simps [of env now start])
      then show ?thesis
        using "1.IH" [OF True Next x [symmetric] blocked _ "1.prems"(3) nin] by blast
    qed
  qed
qed

lemma while_start_returns:
  assumes "\<forall>s sts. while_body env w s sts = Return"
    and "while_start env now start s sts fetched = (res, fetched')"
    and "w \<in> set fetched'" and "w \<notin> set fetched"
  shows "res = Return \<and> last fetched' = w"
  using assms
proof (induction env now start s sts fetched rule: while_start.induct)
  case (1 env now start s sts fetched)
  note blocked = "1.prems"(1)
  show ?case
  proof (cases "dt_instant start < dt_instant now")
    case False
    with "1.prems"(2-) show ?thesis
      by (auto simp: while_start.simps [of env now start])
  next
    case True
    show ?thesis
    proof (cases "while_body env start s sts")
      case (Raise e)
      with True "1.prems"(2-) blocked show ?thesis
        by (auto simp: while_start.simps [of env now start])
    next
      case Return
      with True "1.prems"(2-) blocked show ?thesis
       by (auto simp: while_start.simps [of env now start])
    next
      case (Next x)
      obtain s' sts' where x: "x = (s', sts')" by (cases x)
      from Next x blocked have "w \<noteq> start" by auto
      with "1.prems"(4) have nin: "w \<notin> set (fetched @ [start])" by simp
      have "while_start env now (dt_add_hours start 24) s' sts' (fetched @ [start])
                     = (res, fetched')"
        using True "1.prems"(2) Next x by (simp add: while_start.simps [of env now start])
      then show ?thesis
        using "1.IH" [OF True Next x [symmetric] blocked _ "1.prems"(3) nin] by blast
    qed
  qed
qed


section \<open>The run as a whole\<close>

lemma floor_usec_mono:
  fixes n w k :: int
  assumes "n \<le> w + 1000000 * k"
  shows "n - n mod 1000000 \<le> w - w mod 1000000 + 1000000 * k"
proof -
  have "n div 1000000 \<le> (w + 1000000 * k) div 1000000"
    using assms by (rule zdiv_mono1) simp
  also have "(w + 1000000 * k) div 1000000 = w div 1000000 + k"
    by simp
  finally have "1000000 * (n div 1000000) \<le> 1000000 * (w div 1000000 + k)"
    by simp
  then show ?thesis
    by (simp add: minus_mod_eq_mult_div algebra_simps)
qed


lemma key_iff_map_of: "k \<in> fst ` set d \<longleftrightarrow> map_of d k \<noteq> None"
  by (simp add: map_of_eq_None_iff)


lemma is_active_False:
  "map_of z ''active'' = Some (PBool False) \<Longrightarrow>
   map_of z ''smartMeterReady'' = Some (PBool False) \<Longrightarrow> is_active z = PBool False"
  by (simp add: is_active_def py_or_def key_iff_map_of dict_get_def)





lemma import_statistics_returns:
  assumes "import_statistics env start s = (res, fetched)" and "w \<in> set fetched"
    and "\<forall>s sts. while_body env w s sts = Return"
  shows "res = ImportReturned \<and> last fetched = w"
proof -
  from assms(1,2) have tz: "tzoff start \<noteq> None"
    by (auto simp: import_statistics_def split: if_splits)
  obtain r f where ws: "while_start env (dt_replace_minute0 (utc_datetime (now_import env)))
      (dt_replace_minute0 start) s [] [] = (r, f)"
    by (cases "while_start env (dt_replace_minute0 (utc_datetime (now_import env)))
      (dt_replace_minute0 start) s [] []")
  with assms(1) tz have f: "f = fetched"
    by (auto simp: import_statistics_def split: flow.splits)
  from while_start_returns [OF assms(3) ws] assms(2) f have "r = Return" "last fetched = w"
    by simp_all
  with assms(1) tz ws show ?thesis
    by (simp add: import_statistics_def)
qed

lemma import_statistics_blocked:
  assumes "import_statistics env start s = (res, fetched)" and "w \<in> set fetched"
    and "\<forall>s sts x. while_body env w s sts \<noteq> Next x"
  shows "res \<noteq> ImportCommitted sts"
proof -
  from assms(1,2) have tz: "tzoff start \<noteq> None"
    by (auto simp: import_statistics_def split: if_splits)
  obtain r f where ws: "while_start env (dt_replace_minute0 (utc_datetime (now_import env)))
      (dt_replace_minute0 start) s [] [] = (r, f)"
    by (cases "while_start env (dt_replace_minute0 (utc_datetime (now_import env)))
      (dt_replace_minute0 start) s [] []")
  with assms(1) tz have f: "f = fetched"
    by (auto simp: import_statistics_def split: flow.splits)
  from while_start_blocked [OF assms(3) ws] assms(2) f have "r \<noteq> Next sts"
    by simp
  with assms(1) tz ws show ?thesis
    by (auto simp: import_statistics_def split: flow.splits)
qed

lemma import_statistics_invariant:
  assumes "import_statistics env start s = (ImportCommitted sts, fetched)"
    and "\<forall>w s sts s' sts'. P s sts \<longrightarrow> while_body env w s sts = Next (s', sts') \<longrightarrow> P s' sts'"
    and "P s []"
  shows "\<exists>s'. P s' sts"
proof -
  from assms(1) have tz: "tzoff start \<noteq> None"
    by (auto simp: import_statistics_def split: if_splits)
  obtain r f where ws: "while_start env (dt_replace_minute0 (utc_datetime (now_import env)))
      (dt_replace_minute0 start) s [] [] = (r, f)"
    by (cases "while_start env (dt_replace_minute0 (utc_datetime (now_import env)))
      (dt_replace_minute0 start) s [] []")
  with assms(1) tz have "r = Next sts"
    by (auto simp: import_statistics_def split: flow.splits)
  with ws while_start_invariant [OF assms(2,3)] show ?thesis by blast
qed

lemma import_statistics_minute_zero:
  assumes "import_statistics env start s = (ImportCommitted sts, fetched)"
  shows "minute_zero sts"
  using import_statistics_invariant [OF assms, of "\<lambda>s sts. minute_zero sts"]
    while_body_minute_zero
  by (auto simp: minute_zero_def)


lemma committed_handle_exn [simp]: "committed (handle_exn e calls) = None"
  by (simp add: handle_exn_def)

lemma api_calls_handle_exn [simp]: "api_calls (handle_exn e calls) = calls"
  by (simp add: handle_exn_def)

lemma try_block_fetch:
  assumes "CallVerbrauch w \<in> set (api_calls (try_block env start s))"
  shows "\<exists>res fetched. import_statistics env start s = (res, fetched) \<and> w \<in> set fetched \<and>
           committed (try_block env start s) = committed_of res \<and>
           api_calls (try_block env start s) =
             [CallLogin, CallZaehlpunkte] @ map CallVerbrauch fetched"
proof -
  obtain res fetched where i: "import_statistics env start s = (res, fetched)"
    by (cases "import_statistics env start s")
  show ?thesis
  proof (cases "api_login env")
    case (Some e)
    with assms show ?thesis by (simp add: try_block_def)
  next
    case None
    show ?thesis
    proof (cases "get_zaehlpunkt env")
      case (Inl e)
      with None assms show ?thesis by (simp add: try_block_def)
    next
      case (Inr zp)
      show ?thesis
      proof (cases "py_truthy (is_active zp)")
        case False
        with None Inr assms show ?thesis by (simp add: try_block_def)
      next
        case True
        with None Inr i assms show ?thesis
          by (cases res) (auto simp: try_block_def committed_of_def)
      qed
    qed
  qed
qed

lemma try_block_committed:
  assumes "committed (try_block env start s) = Some sts"
  shows "\<exists>fetched. import_statistics env start s = (ImportCommitted sts, fetched)"
proof -
  obtain res fetched where i: "import_statistics env start s = (res, fetched)"
    by (cases "import_statistics env start s")
  show ?thesis
  proof (cases "api_login env")
    case (Some e)
    with assms show ?thesis by (simp add: try_block_def)
  next
    case None
    show ?thesis
    proof (cases "get_zaehlpunkt env")
      case (Inl e)
      with None assms show ?thesis by (simp add: try_block_def)
    next
      case (Inr zp)
      show ?thesis
      proof (cases "py_truthy (is_active zp)")
        case False
        with None Inr assms show ?thesis by (simp add: try_block_def)
      next
        case True
        with None Inr i assms show ?thesis
          by (cases res) (auto simp: try_block_def)
      qed
    qed
  qed
qed

lemma async_update_cases:
  "api_calls (async_update env sid lis) = [] \<and> committed (async_update env sid lis) = None \<or>
   (\<exists>start rows s0. map_of lis sid = Some rows \<and> row_sum (rows ! 0) = Some s0 \<and>
      async_update env sid lis = try_block env start s0)"
proof (cases "no_previous_data lis sid")
  case (Inl e)
  then show ?thesis by (simp add: async_update_def)
next
  case (Inr b)
  show ?thesis
  proof (cases b)
    case True
    with Inr show ?thesis by (simp add: async_update_def call_today_def)
  next
    case False
    show ?thesis
    proof (cases "map_of lis sid")
      case None
      with Inr False show ?thesis by (simp add: async_update_def)
    next
      case (Some rows)
      with Inr False show ?thesis
        by (auto simp: async_update_def split: option.splits sum.splits)
    qed
  qed
qed

lemma async_update_fetch:
  assumes "CallVerbrauch w \<in> set (api_calls (async_update env sid lis))"
  shows "\<exists>start s0 res fetched. import_statistics env start s0 = (res, fetched) \<and>
           w \<in> set fetched \<and>
           committed (async_update env sid lis) = committed_of res \<and>
           api_calls (async_update env sid lis) =
             [CallLogin, CallZaehlpunkte] @ map CallVerbrauch fetched"
proof -
  from async_update_cases [of env sid lis] assms obtain start s0 where
    "async_update env sid lis = try_block env start s0"
    by auto
  with try_block_fetch [of w env start s0] assms show ?thesis by auto
qed

lemma async_update_committed:
  assumes "committed (async_update env sid lis) = Some sts"
  shows "\<exists>rows s0 start fetched. map_of lis sid = Some rows \<and> row_sum (rows ! 0) = Some s0 \<and>
           import_statistics env start s0 = (ImportCommitted sts, fetched)"
proof -
  from async_update_cases [of env sid lis] assms obtain start rows s0 where
    "map_of lis sid = Some rows" "row_sum (rows ! 0) = Some s0"
    "async_update env sid lis = try_block env start s0"
    by auto
  with try_block_committed [of env start s0 sts] assms show ?thesis by auto
qed



section \<open>Evaluating concrete runs\<close>

text \<open>
  The values that the scenarios need, computed once: the quotients of the raw values 0, 1,
  500 and -500, and the rounded sums along the way.
\<close>

lemma rhe_eval:
  "of_int m - 1 / 2 < x \<Longrightarrow> x < of_int m + 1 / 2 \<Longrightarrow> round_half_even x = m"
proof -
  assume a: "of_int m - 1 / 2 < x" "x < of_int m + 1 / 2"
  show ?thesis
  proof (cases "of_int m \<le> x")
    case True
    with a have f: "\<lfloor>x\<rfloor> = m" by (intro floor_unique) simp_all
    with a show ?thesis by (simp add: round_half_even_def Let_def)
  next
    case False
    with a have f: "\<lfloor>x\<rfloor> = m - 1" by (intro floor_unique) simp_all
    with a False show ?thesis by (simp add: round_half_even_def Let_def)
  qed
qed

lemma fl_round_eval:
  fixes x :: rat
  assumes "2 powi k \<le> x" "x < 2 powi (k + 1)" "- 1022 \<le> k"
  shows "fl_round x = of_int (round_half_even (x / 2 powi (k - 52))) * 2 powi (k - 52)"
proof -
  have "0 < (2 :: rat) powi k" by simp
  with assms(1) have x: "0 < x" by linarith
  have k: "ilog 2 x = k" using ilog_unique [of 2 k x] assms(1,2) by simp
  have m: "max (k - 52) (- 1074) = k - 52" using assms(3) by linarith
  have "x \<noteq> 0" "\<bar>x\<bar> = x" "sgn x = 1" using x by simp_all
  then show ?thesis
    by (simp only: fl_round_def Let_def k m if_False mult_1)
qed

lemma dec_round_eval:
  fixes x :: rat
  assumes "10 powi k \<le> x" "x < 10 powi (k + 1)"
  shows "dec_round x = of_int (round_half_even (x / 10 powi (k - 27))) * 10 powi (k - 27)"
proof -
  have "0 < (10 :: rat) powi k" by simp
  with assms(1) have x: "0 < x" by linarith
  have "ilog 10 x = k" using ilog10_unique [of k x] assms by simp
  with x show ?thesis
    by (simp add: dec_round_def Let_def)
qed

lemma fl_round_500: "fl_round 500 = 500"
  by (subst fl_round_eval [where k = 8]) (simp_all add: power_int_minus rhe_of_int [of "500 * 2 ^ 44", simplified])

lemma fl_round_half: "fl_round (1 / 2) = 1 / 2"
  by (subst fl_round_eval [where k = "- 1"]) (simp_all add: power_int_minus rhe_of_int [of "2 ^ 52", simplified])

lemma div_500: "py_div_1000 (PInt 500) = Inr (1 / 2)"
  by (simp add: py_float_of_int_def fl_round_500 fl_round_half)

lemma fl_round_1: "fl_round 1 = 1"
  by (subst fl_round_eval [where k = 0]) (simp_all add: power_int_minus rhe_of_int [of "2 ^ 52", simplified])

lemma fl_round_milli: "fl_round (1 / 1000) = milli_float"
  unfolding milli_float_def
  by (subst fl_round_eval [where k = "- 10"])
     (simp_all add: power_int_minus rhe_eval [where m = 4611686018427388])

lemma div_1: "py_div_1000 (PInt 1) = Inr milli_float"
  by (simp add: py_float_of_int_def fl_round_1 fl_round_milli)

lemma dec_add_milli: "dec_add 0 milli_float = milli_sum1"
  unfolding dec_add_def milli_float_def milli_sum1_def
  by (subst dec_round_eval [where k = "- 3"])
     (simp_all add: power_int_minus rhe_eval [where m = 1000000000000000020816681712])

lemma dec_add_milli2: "dec_add milli_sum1 milli_float = milli_sum2"
  unfolding dec_add_def milli_float_def milli_sum1_def milli_sum2_def
  by (subst dec_round_eval [where k = "- 3"])
     (simp_all add: power_int_minus rhe_eval [where m = 2000000000000000041633363424])

lemma milli_facts:
  "milli_float \<noteq> 1 / 1000" "milli_sum2 \<noteq> milli_sum1 + milli_float" "milli_sum1 \<le> milli_sum2"
  "milli_sum1 \<noteq> 0 + milli_float"
  by (simp_all add: milli_float_def milli_sum1_def milli_sum2_def)

lemma dec_round_exact:
  fixes x :: rat
  assumes "10 powi k \<le> x" "x < 10 powi (k + 1)" "x / 10 powi (k - 27) = of_int m"
  shows "dec_round x = x"
proof -
  have q: "0 < (10 :: rat) powi (k - 27)" by simp
  have "dec_round x = of_int m * 10 powi (k - 27)"
    by (simp add: dec_round_eval [OF assms(1,2)] assms(3) rhe_of_int)
  also have "\<dots> = x" using assms(3) [symmetric] q by simp
  finally show ?thesis .
qed

lemma half_sums:
  "dec_add 0 (1 / 2) = 1 / 2"
  "dec_add (1 / 2) (1 / 2) = 1"
  "dec_add 1 (1 / 2) = 3 / 2"
  "dec_add (3 / 2) (1 / 2) = 2"
  "dec_add 2 (1 / 2) = 5 / 2"
  "dec_add (5 / 2) (1 / 2) = 3"
  "dec_add 3 (1 / 2) = 7 / 2"
  "dec_add (7 / 2) (1 / 2) = 4"
  "dec_add 4 (1 / 2) = 9 / 2"
  "dec_add (9 / 2) (1 / 2) = 5"
  "dec_add 2 0 = 2"
  unfolding dec_add_def
  by (simp_all add:
      dec_round_exact [where k = "- 1" and m = "5 * 10 ^ 27" and x = "1 / 2"]
      dec_round_exact [where k = 0 and m = "10 ^ 27" and x = 1]
      dec_round_exact [where k = 0 and m = "15 * 10 ^ 26" and x = "3 / 2"]
      dec_round_exact [where k = 0 and m = "2 * 10 ^ 27" and x = 2]
      dec_round_exact [where k = 0 and m = "25 * 10 ^ 26" and x = "5 / 2"]
      dec_round_exact [where k = 0 and m = "3 * 10 ^ 27" and x = 3]
      dec_round_exact [where k = 0 and m = "35 * 10 ^ 26" and x = "7 / 2"]
      dec_round_exact [where k = 0 and m = "4 * 10 ^ 27" and x = 4]
      dec_round_exact [where k = 0 and m = "45 * 10 ^ 26" and x = "9 / 2"]
      dec_round_exact [where k = 0 and m = "5 * 10 ^ 27" and x = 5]
      power_int_minus)

lemma div_0: "py_div_1000 (PInt 0) = Inr 0"
  by (simp add: py_float_of_int_def fl_round_def)

lemma fl_round_minus: "fl_round (- x) = - fl_round x"
  by (simp add: fl_round_def Let_def)

lemma div_neg_500: "py_div_1000 (PInt (- 500)) = Inr (- (1 / 2))"
  using fl_round_minus [of 500] fl_round_minus [of "1 / 2"]
  by (simp add: py_float_of_int_def fl_round_500 fl_round_half)

lemma dec_add_cancel: "dec_add (1 / 2) (- (1 / 2)) = 0"
  by (simp add: dec_add_def dec_round_def)

lemmas run_values = div_500 div_0 div_1 div_neg_500 half_sums dec_add_milli dec_add_milli2
  dec_add_cancel

lemmas run_defs =
  scenario_env_def window_def reading_def jan2024_def utc_datetime_def
  while_body_def get_consumption_def translate_dict_def dict_path_def dict_path_try_def
  strint_def py_isdigit_def py_isdigit_char_def ascii_digit_def py_int_of_str_def
  access_step_def dict_get_def parse_ts_def parse_jan2024_def two_digits_def digit_val_def
  reading_step_def dt_minute_def dt_less_def dt_instant_def dt_add_hours_def usec_per_hour_def
  import_statistics_def dt_replace_minute0_def async_update_def try_block_def
  no_previous_data_def checkpoint_def sensor_id_def coerce_end_def dt_diff_def
  dt_replace_microsecond0_def get_zaehlpunkt_def is_active_def py_or_def handle_exn_def
  seq_index_def

text \<open>Conversion of an integer to \<^verbatim>\<open>float\<close> is exact up to \<open>2 ^ 53\<close>.\<close>

lemma fl_round_of_int_pos:
  fixes i :: int
  assumes "0 < i" "i \<le> 2 ^ 53"
  shows "fl_round (of_int i) = of_int i"
proof -
  let ?x = "of_int i :: rat"
  let ?k = "ilog 2 ?x"
  have x: "0 < ?x" "1 \<le> ?x" "?x \<le> 2 ^ 53" using assms by simp_all
  from ilog_bounds [of 2 ?x] x(1)
  have lo: "2 powi ?k \<le> ?x" and hi: "?x < 2 powi (?k + 1)" by simp_all
  have k0: "0 \<le> ?k"
  proof (rule ccontr)
    assume "\<not> 0 \<le> ?k"
    then have "?k + 1 \<le> 0" by simp
    then have "(2 :: rat) powi (?k + 1) \<le> 2 powi 0" by (intro powi_mono) simp_all
    with hi x(2) show False by simp
  qed
  have k53: "?k \<le> 53"
  proof (rule ccontr)
    assume "\<not> ?k \<le> 53"
    then have "54 \<le> ?k" by simp
    then have "(2 :: rat) powi 54 \<le> 2 powi ?k" by (intro powi_mono) simp_all
    with lo x(3) show False by simp
  qed
  have e: "max (?k - 52) (- 1074) = ?k - 52" using k0 by linarith
  have q: "0 < (2 :: rat) powi (?k - 52)" by simp
  have "\<exists>m. ?x / 2 powi (?k - 52) = of_int m"
  proof (cases "?k \<le> 52")
    case True
    then have "(2 :: rat) powi (?k - 52) = inverse (2 ^ nat (52 - ?k))"
      by (simp add: power_int_def inverse_eq_divide power_one_over)
    then have "?x / 2 powi (?k - 52) = of_int (i * 2 ^ nat (52 - ?k))"
      by (simp add: divide_inverse)
    then show ?thesis by blast
  next
    case False
    with k53 have k: "?k = 53" by simp
    with lo x(3) have "?x = 2 ^ 53" by simp
    with k have "?x / 2 powi (?k - 52) = of_int (2 ^ 52)" by simp
    then show ?thesis by blast
  qed
  then obtain m where m: "?x / 2 powi (?k - 52) = of_int m" by blast
  then have xm: "?x = of_int m * 2 powi (?k - 52)" using q by (simp add: field_simps)
  have "?x \<noteq> 0" "\<bar>?x\<bar> = ?x" "sgn ?x = 1" using x by simp_all
  then have "fl_round ?x = of_int (round_half_even (?x / 2 powi (?k - 52))) * 2 powi (?k - 52)"
    using x(1) by (simp add: fl_round_def Let_def e)
  also have "\<dots> = of_int m * 2 powi (?k - 52)" by (simp only: m rhe_of_int)
  also have "\<dots> = ?x" using xm by simp
  finally show ?thesis .
qed

lemma fl_round_of_int:
  fixes i :: int
  assumes "\<bar>i\<bar> \<le> 2 ^ 53"
  shows "fl_round (of_int i) = of_int i"
proof -
  consider "0 < i" | "i = 0" | "i < 0" by linarith
  then show ?thesis
  proof cases
    case 1
    with assms show ?thesis by (intro fl_round_of_int_pos) simp_all
  next
    case 2
    then show ?thesis by (simp add: fl_round_def)
  next
    case 3
    with assms have "fl_round (of_int (- i)) = of_int (- i)"
      by (intro fl_round_of_int_pos) simp_all
    then show ?thesis using fl_round_minus [of "of_int i"] by simp
  qed
qed

lemma py_div_1000_int:
  assumes "\<bar>i\<bar> \<le> 2 ^ 53"
  shows "py_div_1000 (PInt i) = Inr (fl_round (of_int i / 1000))"
proof -
  have "\<bar>of_int i :: rat\<bar> \<le> 2 ^ 53"
    using assms by (metis of_int_abs of_int_le_iff of_int_numeral of_int_power)
  also have "\<dots> < (2 :: rat) ^ 1024" by simp
  finally have "\<not> (2 :: rat) ^ 1024 \<le> \<bar>of_int i\<bar>" by simp
  then show ?thesis
    by (simp add: py_float_of_int_def fl_round_of_int [OF assms] Let_def)
qed

section \<open>The claims about sensor.py\<close>

text \<open>
  Claim C1. If the payload of any window that a run fetches has no \<^verbatim>\<open>values\<close> key, the run
  writes nothing to the statistics store, whatever earlier windows of the run have
  produced, and that fetch is the last call of the run: the bare \<^verbatim>\<open>return\<close> leaves
  \<^verbatim>\<open>_import_statistics\<close> before its one call of \<^verbatim>\<open>async_import_statistics\<close>.
\<close>

theorem malformed_window_commits_nothing:
  assumes "CallVerbrauch w \<in> set (api_calls (async_update env sid lis))"
    and "get_consumption env w = Inr verbrauch"
    and "''values'' \<notin> fst ` set verbrauch"
  shows "committed (async_update env sid lis) = None \<and>
         last (api_calls (async_update env sid lis)) = CallVerbrauch w"
proof -
  from async_update_fetch [OF assms(1)] obtain start s0 res fetched where
    i: "import_statistics env start s0 = (res, fetched)" and w: "w \<in> set fetched"
    and c: "committed (async_update env sid lis) = committed_of res"
    and a: "api_calls (async_update env sid lis) =
              [CallLogin, CallZaehlpunkte] @ map CallVerbrauch fetched"
    by blast
  have "\<forall>s sts. while_body env w s sts = Return"
    using assms(2,3) by (simp add: while_body_no_values)
  from import_statistics_returns [OF i w this]
  have "res = ImportReturned" "last fetched = w" by simp_all
  moreover from w have "fetched \<noteq> []" by auto
  ultimately show ?thesis
    by (simp add: c a committed_of_def last_map)
qed

text \<open>
  Scenario C: the first window would have given five points and a sum of 2, the second
  response has no \<^verbatim>\<open>values\<close>, and the run commits nothing.
\<close>

theorem malformed_window_commits_nothing_witness:
  "while_body scenario_c (jan2024 8 0 0 0) 0 [] =
     Next (2, [\<lparr>st_start = jan2024 8 0 0 0, st_sum = 1 / 2, st_state = 1 / 2\<rparr>,
               \<lparr>st_start = jan2024 8 1 0 0, st_sum = 1, st_state = 1 / 2\<rparr>,
               \<lparr>st_start = jan2024 8 2 0 0, st_sum = 3 / 2, st_state = 1 / 2\<rparr>,
               \<lparr>st_start = jan2024 8 3 0 0, st_sum = 2, st_state = 1 / 2\<rparr>,
               \<lparr>st_start = jan2024 8 4 0 0, st_sum = 2, st_state = 0\<rparr>]) \<and>
   api_calls (async_update scenario_c sensor_id (checkpoint (EndDatetime (jan2024 8 0 0 0)) 0)) =
     [CallLogin, CallZaehlpunkte, CallVerbrauch (jan2024 8 0 0 0),
      CallVerbrauch (jan2024 9 0 0 0)] \<and>
   get_consumption scenario_c (jan2024 9 0 0 0) = Inr [(''optIn'', PBool True)] \<and>
   committed (async_update scenario_c sensor_id (checkpoint (EndDatetime (jan2024 8 0 0 0)) 0))
     = None \<and>
   last (api_calls (async_update scenario_c sensor_id
           (checkpoint (EndDatetime (jan2024 8 0 0 0)) 0))) = CallVerbrauch (jan2024 9 0 0 0)"
proof -
  have first: "while_body scenario_c (jan2024 8 0 0 0) 0 [] =
     Next (2, [\<lparr>st_start = jan2024 8 0 0 0, st_sum = 1 / 2, st_state = 1 / 2\<rparr>,
               \<lparr>st_start = jan2024 8 1 0 0, st_sum = 1, st_state = 1 / 2\<rparr>,
               \<lparr>st_start = jan2024 8 2 0 0, st_sum = 3 / 2, st_state = 1 / 2\<rparr>,
               \<lparr>st_start = jan2024 8 3 0 0, st_sum = 2, st_state = 1 / 2\<rparr>,
               \<lparr>st_start = jan2024 8 4 0 0, st_sum = 2, st_state = 0\<rparr>])"
    by (simp add: scenario_c_def run_defs run_values del: py_div_1000.simps)
  have calls: "api_calls (async_update scenario_c sensor_id
                 (checkpoint (EndDatetime (jan2024 8 0 0 0)) 0)) =
     [CallLogin, CallZaehlpunkte, CallVerbrauch (jan2024 8 0 0 0),
      CallVerbrauch (jan2024 9 0 0 0)]"
    by (simp add: scenario_c_def run_defs run_values while_start.simps
        del: py_div_1000.simps)
  have resp: "get_consumption scenario_c (jan2024 9 0 0 0) = Inr [(''optIn'', PBool True)]"
    by (simp add: scenario_c_def run_defs)
  have fetched: "CallVerbrauch (jan2024 9 0 0 0) \<in> set (api_calls (async_update scenario_c
                   sensor_id (checkpoint (EndDatetime (jan2024 8 0 0 0)) 0)))"
    by (simp add: calls)
  have missing: "''values'' \<notin> fst ` set [(''optIn'', PBool True)]"
    by simp
  from malformed_window_commits_nothing [OF fetched resp missing] first calls resp
  show ?thesis by simp
qed




text \<open>
  Claim C3 says that every committed timestamp has zero minutes, seconds and
  microseconds, and that any other reading ends the run. The code looks at the minute
  only: a reading stamped 12:00:30 is committed.
\<close>

theorem committed_seconds_counterexample:
  "committed (async_update scenario_seconds sensor_id
      (checkpoint (EndDatetime (jan2024 7 23 0 0)) 0)) =
     Some [\<lparr>st_start = jan2024 8 12 0 30, st_sum = 1 / 2, st_state = 1 / 2\<rparr>] \<and>
   dt_minute (jan2024 8 12 0 30) = 0 \<and> dt_second (jan2024 8 12 0 30) = 30"
  by (simp add: scenario_seconds_def run_defs run_values while_start.simps dt_second_def
      del: py_div_1000.simps)

text \<open>
  Claim C3, as the code has it. Every committed timestamp has the minute zero. A reading
  whose timestamp has another minute, in a window that passes the opt-in and the
  zero-consumption checks, leaves the run without a commit. Seconds and microseconds are
  not looked at, and the readings of a skipped window are not looked at either.
\<close>

theorem committed_minutes_zero:
  "(committed (async_update env sid lis) = Some sts \<and> p \<in> set sts \<longrightarrow>
      dt_minute (st_start p) = 0) \<and>
   (CallVerbrauch w \<in> set (api_calls (async_update env sid lis)) \<and>
    get_consumption env w = Inr verbrauch \<and>
    py_truthy (dict_get verbrauch ''optIn'') \<and>
    \<not> (py_eq_zero (dict_get verbrauch ''consumptionMinimum'') \<and>
       py_eq_zero (dict_get verbrauch ''consumptionMaximum'')) \<and>
    py_iter (dict_get verbrauch ''values'') = Inr vs \<and>
    r \<in> set vs \<and> parse_ts env r = Inr ts \<and> dt_minute ts \<noteq> 0 \<longrightarrow>
      committed (async_update env sid lis) = None)"
proof (intro conjI impI)
  assume h: "committed (async_update env sid lis) = Some sts \<and> p \<in> set sts"
  from async_update_committed [of env sid lis sts] h obtain s0 start fetched where
    "import_statistics env start s0 = (ImportCommitted sts, fetched)"
    by blast
  from import_statistics_minute_zero [OF this] h
  show "dt_minute (st_start p) = 0" by (simp add: minute_zero_def)
next
  assume h: "CallVerbrauch w \<in> set (api_calls (async_update env sid lis)) \<and>
    get_consumption env w = Inr verbrauch \<and>
    py_truthy (dict_get verbrauch ''optIn'') \<and>
    \<not> (py_eq_zero (dict_get verbrauch ''consumptionMinimum'') \<and>
       py_eq_zero (dict_get verbrauch ''consumptionMaximum'')) \<and>
    py_iter (dict_get verbrauch ''values'') = Inr vs \<and>
    r \<in> set vs \<and> parse_ts env r = Inr ts \<and> dt_minute ts \<noteq> 0"
  from async_update_fetch [of w env sid lis] h obtain start s0 res fetched where
    i: "import_statistics env start s0 = (res, fetched)" and w: "w \<in> set fetched"
    and c: "committed (async_update env sid lis) = committed_of res"
    by blast
  have "\<forall>s sts x. while_body env w s sts \<noteq> Next x"
    using h while_body_misaligned [of env w verbrauch vs r ts] by blast
  from import_statistics_blocked [OF i w this] have "\<forall>sts. res \<noteq> ImportCommitted sts"
    by blast
  then show "committed (async_update env sid lis) = None"
    by (cases res) (simp_all add: c committed_of_def)
qed

text \<open>
  Scenario B commits ten points on the hour; in scenario D the reading stamped 12:07 ends
  the run with nothing committed.
\<close>

theorem committed_minutes_zero_witness:
  "committed (async_update scenario_b sensor_id
      (checkpoint (EndDatetime (jan2024 8 0 0 0)) 0)) =
     Some [\<lparr>st_start = jan2024 8 0 0 0, st_sum = 1 / 2, st_state = 1 / 2\<rparr>,
           \<lparr>st_start = jan2024 8 1 0 0, st_sum = 1, st_state = 1 / 2\<rparr>,
           \<lparr>st_start = jan2024 8 2 0 0, st_sum = 3 / 2, st_state = 1 / 2\<rparr>,
           \<lparr>st_start = jan2024 8 3 0 0, st_sum = 2, st_state = 1 / 2\<rparr>,
           \<lparr>st_start = jan2024 8 4 0 0, st_sum = 5 / 2, st_state = 1 / 2\<rparr>,
           \<lparr>st_start = jan2024 8 5 0 0, st_sum = 3, st_state = 1 / 2\<rparr>,
           \<lparr>st_start = jan2024 8 6 0 0, st_sum = 7 / 2, st_state = 1 / 2\<rparr>,
           \<lparr>st_start = jan2024 8 7 0 0, st_sum = 4, st_state = 1 / 2\<rparr>,
           \<lparr>st_start = jan2024 8 8 0 0, st_sum = 9 / 2, st_state = 1 / 2\<rparr>,
           \<lparr>st_start = jan2024 8 9 0 0, st_sum = 5, st_state = 1 / 2\<rparr>] \<and>
   dt_minute (jan2024 8 9 0 0) = 0 \<and>
   api_calls (async_update scenario_d sensor_id (checkpoint (EndDatetime (jan2024 7 23 0 0)) 0))
     = [CallLogin, CallZaehlpunkte, CallVerbrauch (jan2024 7 23 0 0)] \<and>
   parse_ts scenario_d (reading ''2024-01-08T12:07:00+00:00'' (PInt 500))
     = Inr (jan2024 8 12 7 0) \<and>
   dt_minute (jan2024 8 12 7 0) = 7 \<and>
   committed (async_update scenario_d sensor_id (checkpoint (EndDatetime (jan2024 7 23 0 0)) 0))
     = None"
proof -
  let ?sts = "[\<lparr>st_start = jan2024 8 0 0 0, st_sum = 1 / 2, st_state = 1 / 2\<rparr>,
           \<lparr>st_start = jan2024 8 1 0 0, st_sum = 1, st_state = 1 / 2\<rparr>,
           \<lparr>st_start = jan2024 8 2 0 0, st_sum = 3 / 2, st_state = 1 / 2\<rparr>,
           \<lparr>st_start = jan2024 8 3 0 0, st_sum = 2, st_state = 1 / 2\<rparr>,
           \<lparr>st_start = jan2024 8 4 0 0, st_sum = 5 / 2, st_state = 1 / 2\<rparr>,
           \<lparr>st_start = jan2024 8 5 0 0, st_sum = 3, st_state = 1 / 2\<rparr>,
           \<lparr>st_start = jan2024 8 6 0 0, st_sum = 7 / 2, st_state = 1 / 2\<rparr>,
           \<lparr>st_start = jan2024 8 7 0 0, st_sum = 4, st_state = 1 / 2\<rparr>,
           \<lparr>st_start = jan2024 8 8 0 0, st_sum = 9 / 2, st_state = 1 / 2\<rparr>,
           \<lparr>st_start = jan2024 8 9 0 0, st_sum = 5, st_state = 1 / 2\<rparr>]"
  let ?vs = "[reading ''2024-01-08T11:00:00+00:00'' (PInt 500),
              reading ''2024-01-08T12:07:00+00:00'' (PInt 500)]"
  let ?v = "[(''optIn'', PBool True), (''consumptionMinimum'', PInt 1),
             (''consumptionMaximum'', PInt 900), (''values'', PList ?vs)]"
  have b: "committed (async_update scenario_b sensor_id
      (checkpoint (EndDatetime (jan2024 8 0 0 0)) 0)) = Some ?sts"
    by (simp add: scenario_b_def run_defs run_values while_start.simps
        del: py_div_1000.simps)
  have calls: "api_calls (async_update scenario_d sensor_id
      (checkpoint (EndDatetime (jan2024 7 23 0 0)) 0))
     = [CallLogin, CallZaehlpunkte, CallVerbrauch (jan2024 7 23 0 0)]"
    by (simp add: scenario_d_def run_defs run_values while_start.simps
        del: py_div_1000.simps)
  have resp: "get_consumption scenario_d (jan2024 7 23 0 0) = Inr ?v"
    by (simp add: scenario_d_def run_defs)
  have ts: "parse_ts scenario_d (reading ''2024-01-08T12:07:00+00:00'' (PInt 500))
     = Inr (jan2024 8 12 7 0)"
    by (simp add: scenario_d_def run_defs)
  have m: "dt_minute (jan2024 8 12 7 0) = 7" "dt_minute (jan2024 8 9 0 0) = 0"
    by (simp_all add: run_defs)
  have win: "py_truthy (dict_get ?v ''optIn'')"
    "\<not> (py_eq_zero (dict_get ?v ''consumptionMinimum'') \<and>
        py_eq_zero (dict_get ?v ''consumptionMaximum''))"
    "py_iter (dict_get ?v ''values'') = Inr ?vs"
    by (simp_all add: dict_get_def)
  note committed_minutes_zero [where env = scenario_b and sid = sensor_id
      and lis = "checkpoint (EndDatetime (jan2024 8 0 0 0)) 0" and sts = ?sts
      and p = "\<lparr>st_start = jan2024 8 9 0 0, st_sum = 5, st_state = 1 / 2\<rparr>"]
    committed_minutes_zero [where env = scenario_d and sid = sensor_id
      and lis = "checkpoint (EndDatetime (jan2024 7 23 0 0)) 0" and w = "jan2024 7 23 0 0"
      and verbrauch = ?v and vs = ?vs
      and r = "reading ''2024-01-08T12:07:00+00:00'' (PInt 500)" and ts = "jan2024 8 12 7 0"]
  with b calls resp ts m win
  show ?thesis by simp
qed

text \<open>
  Claim C4. With no previous statistics the sensor is meant to start at the beginning of
  today (UTC) minus 48 hours with a sum of zero. The code calls \<^verbatim>\<open>today(timezone.utc)\<close>, and
  \<^verbatim>\<open>today\<close> takes no argument: for every clock and every collaborator the update ends in
  a \<^verbatim>\<open>TypeError\<close> before any start is computed and before the API is contacted.
\<close>

theorem cold_start_raises_TypeError:
  "async_update env sid [] =
     \<lparr>exit_by = Propagated TypeError, available = True, committed = None, api_calls = []\<rparr>"
  by (simp add: async_update_def no_previous_data_def call_today_def)

text \<open>
  Claim C5. When the store holds one last row for the sensor, with a sum and an \<^verbatim>\<open>end\<close> that
  is (or converts to) an aware \<^verbatim>\<open>datetime\<close> no more than 24 hours before now, the update
  returns at the gate: nothing is committed and the API is not called at all, neither
  for login nor for consumption data.
\<close>

theorem gate_within_24h:
  assumes "row_sum r = Some s"
    and "coerce_end env (row_end r) = Some e"
    and "tzoff e = Some off"
    and "now_update env - dt_instant e \<le> 24 * usec_per_hour"
  shows "async_update env sid [(sid, [r])] =
           \<lparr>exit_by = Gate, available = True, committed = None, api_calls = []\<rparr>"
proof -
  have d: "dt_diff (dt_replace_microsecond0 (utc_datetime (now_update env)))
                (dt_replace_microsecond0 e)
        = Inr (now_update env - now_update env mod 1000000
               - (wall e - wall e mod 1000000 - off * 60000000))"
    using assms(3)
    by (simp add: dt_diff_def dt_replace_microsecond0_def utc_datetime_def dt_instant_def)
  have "now_update env \<le> wall e + 1000000 * (86400 - 60 * off)"
    using assms(3,4) by (simp add: dt_instant_def usec_per_hour_def)
  from floor_usec_mono [OF this]
  have "now_update env - now_update env mod 1000000
               - (wall e - wall e mod 1000000 - off * 60000000) \<le> 24 * usec_per_hour"
    by (simp add: usec_per_hour_def)
  with d show ?thesis
    using assms(1,2)
    by (simp add: async_update_def no_previous_data_def)
qed

text \<open>A last row that ended exactly 24 hours ago, given as a number of seconds.\<close>

theorem gate_within_24h_witness:
  "row_sum \<lparr>row_end = EndNumber 1704758400, row_sum = Some 5\<rparr> = Some 5 \<and>
   coerce_end scenario_b (row_end \<lparr>row_end = EndNumber 1704758400, row_sum = Some 5\<rparr>)
     = Some (jan2024 9 0 0 0) \<and>
   tzoff (jan2024 9 0 0 0) = Some 0 \<and>
   now_update scenario_b - dt_instant (jan2024 9 0 0 0) = 24 * usec_per_hour \<and>
   async_update scenario_b sensor_id
     [(sensor_id, [\<lparr>row_end = EndNumber 1704758400, row_sum = Some 5\<rparr>])] =
     \<lparr>exit_by = Gate, available = True, committed = None, api_calls = []\<rparr>"
proof -
  let ?r = "\<lparr>row_end = EndNumber 1704758400, row_sum = Some 5\<rparr>"
  have c: "coerce_end scenario_b (row_end ?r) = Some (jan2024 9 0 0 0)"
    by (simp add: scenario_b_def run_defs rhe_of_int [of 1704758400000000, simplified])
  have t: "tzoff (jan2024 9 0 0 0) = Some 0"
    by (simp add: run_defs)
  have n: "now_update scenario_b - dt_instant (jan2024 9 0 0 0) = 24 * usec_per_hour"
    by (simp add: scenario_b_def run_defs)
  have "now_update scenario_b - dt_instant (jan2024 9 0 0 0) \<le> 24 * usec_per_hour"
    by (simp add: n)
  from gate_within_24h [of ?r 5 scenario_b "jan2024 9 0 0 0" 0 sensor_id, OF _ c t this] c t n
  show ?thesis by simp
qed

text \<open>
  Claim C6 says that every reading whose timestamp is before the last one seen is
  dropped and the loop goes on. The minute is checked first: a reading stamped 11:07 that
  arrives after 12:00 ends the run, and the reading after it is never looked at.
\<close>

theorem out_of_order_counterexample:
  "parse_ts scenario_d (reading ''2024-01-08T11:07:00+00:00'' (PInt 500))
     = Inr (jan2024 8 11 7 0) \<and>
   dt_less (jan2024 8 11 7 0) (jan2024 8 12 0 0) = Inr True \<and>
   reading_step scenario_d \<lparr>last_ts = jan2024 8 12 0 0, sum_acc = 0, statistics = []\<rparr>
     (reading ''2024-01-08T11:07:00+00:00'' (PInt 500)) = Return \<and>
   for_values scenario_d \<lparr>last_ts = jan2024 8 12 0 0, sum_acc = 0, statistics = []\<rparr>
     [reading ''2024-01-08T11:07:00+00:00'' (PInt 500),
      reading ''2024-01-08T13:00:00+00:00'' (PInt 500)] = Return"
  by (simp add: scenario_d_def run_defs run_values del: py_div_1000.simps)

text \<open>
  Claim C6, as the code has it. A reading whose timestamp has the minute zero and compares
  less than the last timestamp seen is dropped: no point is appended, the last timestamp
  and the sum stay as they are, and the loop goes on with the next reading.
\<close>

theorem out_of_order_reading_dropped:
  assumes "parse_ts env v = Inr ts" and "dt_minute ts = 0"
    and "dt_less ts (last_ts a) = Inr True"
  shows "reading_step env a v = Next a \<and> for_values env a (v # vs) = for_values env a vs"
  using assms by (simp add: reading_step_def)

text \<open>
  Scenario E: the reading of 03:00 arrives after the one of 05:00 and changes nothing;
  the reading of 06:00 after it is accumulated as usual.
\<close>

theorem out_of_order_reading_dropped_witness:
  "parse_ts scenario_b (reading ''2024-01-08T03:00:00+00:00'' (PInt 500))
     = Inr (jan2024 8 3 0 0) \<and>
   dt_minute (jan2024 8 3 0 0) = 0 \<and>
   dt_less (jan2024 8 3 0 0) (jan2024 8 5 0 0) = Inr True \<and>
   reading_step scenario_b
     \<lparr>last_ts = jan2024 8 5 0 0, sum_acc = 1 / 2,
      statistics = [\<lparr>st_start = jan2024 8 5 0 0, st_sum = 1 / 2, st_state = 1 / 2\<rparr>]\<rparr>
     (reading ''2024-01-08T03:00:00+00:00'' (PInt 500)) =
     Next \<lparr>last_ts = jan2024 8 5 0 0, sum_acc = 1 / 2,
           statistics = [\<lparr>st_start = jan2024 8 5 0 0, st_sum = 1 / 2, st_state = 1 / 2\<rparr>]\<rparr> \<and>
   for_values scenario_b \<lparr>last_ts = jan2024 8 0 0 0, sum_acc = 0, statistics = []\<rparr>
     [reading ''2024-01-08T05:00:00+00:00'' (PInt 500),
      reading ''2024-01-08T03:00:00+00:00'' (PInt 500),
      reading ''2024-01-08T06:00:00+00:00'' (PInt 500)] =
     Next \<lparr>last_ts = jan2024 8 6 0 0, sum_acc = 1,
           statistics = [\<lparr>st_start = jan2024 8 5 0 0, st_sum = 1 / 2, st_state = 1 / 2\<rparr>,
                         \<lparr>st_start = jan2024 8 6 0 0, st_sum = 1, st_state = 1 / 2\<rparr>]\<rparr>"
proof -
  let ?v = "reading ''2024-01-08T03:00:00+00:00'' (PInt 500)"
  let ?a = "\<lparr>last_ts = jan2024 8 5 0 0, sum_acc = 1 / 2,
      statistics = [\<lparr>st_start = jan2024 8 5 0 0, st_sum = 1 / 2, st_state = 1 / 2\<rparr>]\<rparr>"
  have p: "parse_ts scenario_b ?v = Inr (jan2024 8 3 0 0)"
    by (simp add: scenario_b_def run_defs)
  have m: "dt_minute (jan2024 8 3 0 0) = 0"
    by (simp add: run_defs)
  have l: "dt_less (jan2024 8 3 0 0) (last_ts ?a) = Inr True"
    by (simp add: run_defs)
  have w: "for_values scenario_b \<lparr>last_ts = jan2024 8 0 0 0, sum_acc = 0, statistics = []\<rparr>
     [reading ''2024-01-08T05:00:00+00:00'' (PInt 500),
      reading ''2024-01-08T03:00:00+00:00'' (PInt 500),
      reading ''2024-01-08T06:00:00+00:00'' (PInt 500)] =
     Next \<lparr>last_ts = jan2024 8 6 0 0, sum_acc = 1,
           statistics = [\<lparr>st_start = jan2024 8 5 0 0, st_sum = 1 / 2, st_state = 1 / 2\<rparr>,
                         \<lparr>st_start = jan2024 8 6 0 0, st_sum = 1, st_state = 1 / 2\<rparr>]\<rparr>"
    by (simp add: scenario_b_def run_defs run_values del: py_div_1000.simps)
  from out_of_order_reading_dropped [OF p m l, of "[]"] p m l w
  show ?thesis by simp
qed



text \<open>
  Claim C8 says that the state is the raw value divided by 1000 exactly. The division is
  done in binary floating point: for the raw value 1 the state is the binary64 number
  nearest to 1/1000, which is not 1/1000, and the sum is that number rounded to 28 digits.
\<close>

theorem exact_quotient_counterexample:
  "reading_step scenario_repeat \<lparr>last_ts = jan2024 7 23 0 0, sum_acc = 0, statistics = []\<rparr>
     (reading ''2024-01-08T05:00:00+00:00'' (PInt 1)) =
     Next \<lparr>last_ts = jan2024 8 5 0 0, sum_acc = milli_sum1,
           statistics = [\<lparr>st_start = jan2024 8 5 0 0, st_sum = milli_sum1,
                           st_state = milli_float\<rparr>]\<rparr> \<and>
   milli_float \<noteq> 1 / 1000 \<and> milli_sum1 \<noteq> 0 + milli_float"
proof -
  have "reading_step scenario_repeat
          \<lparr>last_ts = jan2024 7 23 0 0, sum_acc = 0, statistics = []\<rparr>
          (reading ''2024-01-08T05:00:00+00:00'' (PInt 1)) =
        Next \<lparr>last_ts = jan2024 8 5 0 0, sum_acc = milli_sum1,
              statistics = [\<lparr>st_start = jan2024 8 5 0 0, st_sum = milli_sum1,
                              st_state = milli_float\<rparr>]\<rparr>"
    by (simp add: scenario_repeat_def run_defs run_values del: py_div_1000.simps)
  with milli_facts(1,4) show ?thesis by blast
qed

text \<open>
  Claim C8, as the code has it. For a reading with a value that the loop accepts, the state
  is the result of the floating-point division \<^verbatim>\<open>value / 1000.0\<close> (for an integer of at most
  \<open>2 ^ 53\<close> in size, the binary64 number nearest to value/1000), and the sum is the
  previous sum plus the state, rounded to 28 significant digits. The raw value 500 gives
  exactly 1/2. Scenario B: ten hourly readings of 500, then a window of readings without
  value, commit exactly ten points with a final sum of 5, and the second window adds none.
\<close>

theorem present_value_accumulates:
  "(parse_ts env v = Inr ts \<and> dt_minute ts = 0 \<and> dt_less ts (last_ts a) = Inr False \<and>
    py_getitem v (PStr ''value'') = Inr val \<and> val \<noteq> PNone \<and>
    py_div_1000 val = Inr usage \<and> py_getitem v (PStr ''isEstimated'') = Inr est \<longrightarrow>
      reading_step env a v =
        Next \<lparr>last_ts = ts, sum_acc = dec_round (sum_acc a + usage),
              statistics = statistics a @
                [\<lparr>st_start = ts, st_sum = dec_round (sum_acc a + usage),
                  st_state = usage\<rparr>]\<rparr>) \<and>
   (\<bar>i\<bar> \<le> 2 ^ 53 \<longrightarrow> py_div_1000 (PInt i) = Inr (fl_round (of_int i / 1000))) \<and>
   py_div_1000 (PInt 500) = Inr (1 / 2) \<and>
   committed (async_update scenario_b sensor_id
      (checkpoint (EndDatetime (jan2024 8 0 0 0)) 0)) =
     Some [\<lparr>st_start = jan2024 8 0 0 0, st_sum = 1 / 2, st_state = 1 / 2\<rparr>,
           \<lparr>st_start = jan2024 8 1 0 0, st_sum = 1, st_state = 1 / 2\<rparr>,
           \<lparr>st_start = jan2024 8 2 0 0, st_sum = 3 / 2, st_state = 1 / 2\<rparr>,
           \<lparr>st_start = jan2024 8 3 0 0, st_sum = 2, st_state = 1 / 2\<rparr>,
           \<lparr>st_start = jan2024 8 4 0 0, st_sum = 5 / 2, st_state = 1 / 2\<rparr>,
           \<lparr>st_start = jan2024 8 5 0 0, st_sum = 3, st_state = 1 / 2\<rparr>,
           \<lparr>st_start = jan2024 8 6 0 0, st_sum = 7 / 2, st_state = 1 / 2\<rparr>,
           \<lparr>st_start = jan2024 8 7 0 0, st_sum = 4, st_state = 1 / 2\<rparr>,
           \<lparr>st_start = jan2024 8 8 0 0, st_sum = 9 / 2, st_state = 1 / 2\<rparr>,
           \<lparr>st_start = jan2024 8 9 0 0, st_sum = 5, st_state = 1 / 2\<rparr>] \<and>
   while_body scenario_b (jan2024 9 0 0 0) s sts = Next (s, sts)"
proof (intro conjI)
  show "parse_ts env v = Inr ts \<and> dt_minute ts = 0 \<and> dt_less ts (last_ts a) = Inr False \<and>
    py_getitem v (PStr ''value'') = Inr val \<and> val \<noteq> PNone \<and>
    py_div_1000 val = Inr usage \<and> py_getitem v (PStr ''isEstimated'') = Inr est \<longrightarrow>
      reading_step env a v =
        Next \<lparr>last_ts = ts, sum_acc = dec_round (sum_acc a + usage),
              statistics = statistics a @
                [\<lparr>st_start = ts, st_sum = dec_round (sum_acc a + usage),
                  st_state = usage\<rparr>]\<rparr>"
    by (simp add: reading_step_def dec_add_def)
  show "\<bar>i\<bar> \<le> 2 ^ 53 \<longrightarrow> py_div_1000 (PInt i) = Inr (fl_round (of_int i / 1000))"
    using py_div_1000_int by blast
  show "py_div_1000 (PInt 500) = Inr (1 / 2)"
    by (rule div_500)
  show "committed (async_update scenario_b sensor_id
      (checkpoint (EndDatetime (jan2024 8 0 0 0)) 0)) =
     Some [\<lparr>st_start = jan2024 8 0 0 0, st_sum = 1 / 2, st_state = 1 / 2\<rparr>,
           \<lparr>st_start = jan2024 8 1 0 0, st_sum = 1, st_state = 1 / 2\<rparr>,
           \<lparr>st_start = jan2024 8 2 0 0, st_sum = 3 / 2, st_state = 1 / 2\<rparr>,
           \<lparr>st_start = jan2024 8 3 0 0, st_sum = 2, st_state = 1 / 2\<rparr>,
           \<lparr>st_start = jan2024 8 4 0 0, st_sum = 5 / 2, st_state = 1 / 2\<rparr>,
           \<lparr>st_start = jan2024 8 5 0 0, st_sum = 3, st_state = 1 / 2\<rparr>,
           \<lparr>st_start = jan2024 8 6 0 0, st_sum = 7 / 2, st_state = 1 / 2\<rparr>,
           \<lparr>st_start = jan2024 8 7 0 0, st_sum = 4, st_state = 1 / 2\<rparr>,
           \<lparr>st_start = jan2024 8 8 0 0, st_sum = 9 / 2, st_state = 1 / 2\<rparr>,
           \<lparr>st_start = jan2024 8 9 0 0, st_sum = 5, st_state = 1 / 2\<rparr>]"
    by (simp add: scenario_b_def run_defs run_values while_start.simps
        del: py_div_1000.simps)
  show "while_body scenario_b (jan2024 9 0 0 0) s sts = Next (s, sts)"
    by (simp add: scenario_b_def run_defs)
qed

text \<open>A reading of 123 at 07:00, accumulated on a sum of 3.\<close>

theorem present_value_accumulates_witness:
  "parse_ts scenario_b (reading ''2024-01-08T07:00:00+00:00'' (PInt 123))
     = Inr (jan2024 8 7 0 0) \<and>
   dt_minute (jan2024 8 7 0 0) = 0 \<and>
   dt_less (jan2024 8 7 0 0) (jan2024 8 6 0 0) = Inr False \<and>
   \<bar>123 :: int\<bar> \<le> 2 ^ 53 \<and>
   py_div_1000 (PInt 123) = Inr (fl_round (123 / 1000)) \<and>
   reading_step scenario_b \<lparr>last_ts = jan2024 8 6 0 0, sum_acc = 3, statistics = []\<rparr>
     (reading ''2024-01-08T07:00:00+00:00'' (PInt 123)) =
     Next \<lparr>last_ts = jan2024 8 7 0 0, sum_acc = dec_round (3 + fl_round (123 / 1000)),
           statistics = [\<lparr>st_start = jan2024 8 7 0 0,
                           st_sum = dec_round (3 + fl_round (123 / 1000)),
                           st_state = fl_round (123 / 1000)\<rparr>]\<rparr>"
proof -
  let ?v = "reading ''2024-01-08T07:00:00+00:00'' (PInt 123)"
  let ?a = "\<lparr>last_ts = jan2024 8 6 0 0, sum_acc = 3, statistics = []\<rparr>"
  have p: "parse_ts scenario_b ?v = Inr (jan2024 8 7 0 0)"
    by (simp add: scenario_b_def run_defs)
  have m: "dt_minute (jan2024 8 7 0 0) = 0"
    by (simp add: run_defs)
  have l: "dt_less (jan2024 8 7 0 0) (last_ts ?a) = Inr False"
    by (simp add: run_defs)
  have g: "py_getitem ?v (PStr ''value'') = Inr (PInt 123)" "PInt 123 \<noteq> PNone"
    "py_getitem ?v (PStr ''isEstimated'') = Inr (PBool False)"
    by (simp_all add: reading_def)
  have b: "\<bar>123 :: int\<bar> \<le> 2 ^ 53"
    by simp
  note t = present_value_accumulates [where env = scenario_b and v = ?v
      and ts = "jan2024 8 7 0 0" and a = ?a and val = "PInt 123"
      and usage = "fl_round (123 / 1000)" and est = "PBool False" and i = 123]
  from t b have d: "py_div_1000 (PInt 123) = Inr (fl_round (123 / 1000))"
    by simp
  from t p m l g d b show ?thesis
    by simp
qed



end
